theory Spec2Isabelle
  imports Complex_Main "HOL-Library.Signed_Division"
begin

section \<open>Data model\<close>

text \<open>
  A \<open>Token\<close> of the calculator has a kind character, a numeric value and a name.
  The constructors of the class fill the fields that are not given with \<open>0\<close> and
  the empty string. The C++ type \<open>double\<close> is idealised as \<open>real\<close>: rounding,
  infinities and NaN are outside this model.
\<close>

record token =
  kind :: char
  tok_value :: real
  tok_name :: string

definition Token_kind :: "char \<Rightarrow> token" where
  "Token_kind ch = \<lparr>kind = ch, tok_value = 0, tok_name = []\<rparr>"

definition Token_number :: "char \<Rightarrow> real \<Rightarrow> token" where
  "Token_number ch val = \<lparr>kind = ch, tok_value = val, tok_name = []\<rparr>"

definition Token_name :: "char \<Rightarrow> string \<Rightarrow> token" where
  "Token_name ch n = \<lparr>kind = ch, tok_value = 0, tok_name = n\<rparr>"

record variable =
  var_name :: string
  var_value :: real
  var_constant :: bool

text \<open>
  Every \<open>runtime_error\<close> thrown by the program is one constructor, with the name
  the message carries. \<open>OutOfFuel\<close>, \<open>UndefinedCast\<close> and \<open>UndefinedOverflow\<close>
  are not exceptions of the program. The first is the value of a run that has not returned
  within the given number of steps. The other two mark the places where C++ leaves the
  behaviour undefined, so that the model says nothing of what a build does from there on:
  a conversion from \<open>double\<close> to \<open>int\<close> whose truncated value is not an \<open>int\<close>,
  and a product of two \<open>int\<close> that is not an \<open>int\<close>.
\<close>

datatype error =
    BadToken
  | UndefinedRead string
  | ConstantWrite
  | UndefinedWrite string
  | DeclaredTwice string
  | NegativeFactorial
  | IntOverflow
  | SqrtRParenExpected
  | SqrtNegative
  | SqrtPrimaryExpected
  | PowCommaExpected
  | PowRParenExpected
  | PowPrimaryExpected
  | FunctionNotImplemented
  | RParenExpected
  | RBraceExpected
  | PrimaryExpected
  | DivideByZero
  | ModDivideByZero
  | NameExpected
  | EqMissing string
  | NotDeclared string
  | OutOfFuel
  | UndefinedCast
  | UndefinedOverflow

text \<open>
  The state of a session: the pushback \<open>buffer\<close> of the \<open>Token_stream\<close> (a vector
  used as a stack; the head of the list is \<open>buffer.back()\<close>), the unread characters of
  \<open>cin\<close>, its fail state, and the global symbol table. The eof bit of the stream is
  not kept apart: every read at the end of the input sets the fail bit, whether or not
  the eof bit was set before.
\<close>

record state =
  buffer :: "token list"
  input :: string
  cin_fail :: bool
  var_table :: "variable list"

type_synonym 'a action = "state \<Rightarrow> (error + 'a) \<times> state"

definition bind :: "'a action \<Rightarrow> ('a \<Rightarrow> 'b action) \<Rightarrow> 'b action" where
  "bind m f st = (case m st of (Inl e, st') \<Rightarrow> (Inl e, st') | (Inr v, st') \<Rightarrow> f v st')"

definition return :: "'a \<Rightarrow> 'a action" where
  "return v st = (Inr v, st)"

definition throw :: "error \<Rightarrow> 'a action" where
  "throw e st = (Inl e, st)"

subsection \<open>Token kinds and keywords\<close>

definition t_number :: char where "t_number = CHR ''8''"
definition t_print :: char where "t_print = CHR '';''"
definition t_name :: char where "t_name = CHR ''a''"
definition t_quit :: char where "t_quit = CHR ''q''"
definition t_sqrt :: char where "t_sqrt = CHR ''S''"
definition t_pow :: char where "t_pow = CHR ''P''"
definition t_decl :: char where "t_decl = CHR ''#''"
definition t_assign :: char where "t_assign = CHR ''=''"
definition t_const :: char where "t_const = CHR ''C''"
definition t_help :: char where "t_help = CHR ''h''"
definition t_symbols :: char where "t_symbols = CHR ''$''"

definition quitkey :: string where "quitkey = ''quit''"
definition declkey :: string where "declkey = ''let''"
definition constkey :: string where "constkey = ''const''"
definition helpkey :: string where "helpkey = ''help''"
definition symbkey :: string where "symbkey = ''symbols''"
definition sqrtkey :: string where "sqrtkey = ''sqrt''"
definition powkey :: string where "powkey = ''pow''"

section \<open>Symbol table\<close>

fun get_value :: "variable list \<Rightarrow> string \<Rightarrow> error + real" where
  "get_value [] s = Inl (UndefinedRead s)"
| "get_value (v # vs) s = (if var_name v = s then Inr (var_value v) else get_value vs s)"

fun set_value :: "variable list \<Rightarrow> string \<Rightarrow> real \<Rightarrow> error + variable list" where
  "set_value [] s d = Inl (UndefinedWrite s)"
| "set_value (v # vs) s d =
     (if var_name v = s
      then (if var_constant v = True then Inl ConstantWrite else Inr (v\<lparr>var_value := d\<rparr> # vs))
      else (case set_value vs s d of Inl e \<Rightarrow> Inl e | Inr vs' \<Rightarrow> Inr (v # vs')))"

definition is_declared :: "variable list \<Rightarrow> string \<Rightarrow> bool" where
  "is_declared tbl var = list_ex (\<lambda>v. var_name v = var) tbl"

definition define_name ::
  "variable list \<Rightarrow> string \<Rightarrow> real \<Rightarrow> bool \<Rightarrow> error + (real \<times> variable list)" where
  "define_name tbl var val c =
     (if is_declared tbl var then Inl (DeclaredTwice var)
      else Inr (val, tbl @ [\<lparr>var_name = var, var_value = val, var_constant = c\<rparr>]))"

text \<open>The table \<open>main\<close> builds before it reads any input.\<close>

definition startup_table :: "variable list" where
  "startup_table =
     (case define_name [] ''pi'' (31415926535 / 10000000000) True of
        Inl e \<Rightarrow> []
      | Inr (_, t1) \<Rightarrow>
     (case define_name t1 ''e'' (27182818284 / 10000000000) True of
        Inl e \<Rightarrow> t1
      | Inr (_, t2) \<Rightarrow>
     (case define_name t2 ''k'' 1000 False of
        Inl e \<Rightarrow> t2
      | Inr (_, t3) \<Rightarrow> t3)))"

text \<open>
  The calls a client can make on the table, for the invariant of the names. A failing
  call leaves the table as it was (the exception is thrown before any write).
\<close>

datatype table_op =
    Define_name string real bool
  | Set_value string real
  | Get_value string
  | Is_declared string

fun apply_table_op :: "variable list \<Rightarrow> table_op \<Rightarrow> variable list" where
  "apply_table_op tbl (Define_name s d c) =
     (case define_name tbl s d c of Inl e \<Rightarrow> tbl | Inr (_, tbl') \<Rightarrow> tbl')"
| "apply_table_op tbl (Set_value s d) =
     (case set_value tbl s d of Inl e \<Rightarrow> tbl | Inr tbl' \<Rightarrow> tbl')"
| "apply_table_op tbl (Get_value s) = tbl"
| "apply_table_op tbl (Is_declared s) = tbl"

section \<open>Token stream\<close>

subsection \<open>Character classes of the C locale\<close>

definition newline :: char where "newline = CHR 0x0A"

definition isspace :: "char \<Rightarrow> bool" where
  "isspace c = (c = CHR '' '' \<or> (9 \<le> (of_char c :: nat) \<and> (of_char c :: nat) \<le> 13))"

definition isalpha :: "char \<Rightarrow> bool" where
  "isalpha c = ((65 \<le> (of_char c :: nat) \<and> (of_char c :: nat) \<le> 90)
              \<or> (97 \<le> (of_char c :: nat) \<and> (of_char c :: nat) \<le> 122))"

definition isdigit :: "char \<Rightarrow> bool" where
  "isdigit c = (48 \<le> (of_char c :: nat) \<and> (of_char c :: nat) \<le> 57)"

subsection \<open>Reading from \<open>cin\<close>\<close>

text \<open>\<open>cin.get(ch)\<close>: \<open>None\<close> when the read fails, and then \<open>ch\<close> keeps its value.\<close>

definition cin_get :: "state \<Rightarrow> char option \<times> state" where
  "cin_get st =
     (if cin_fail st then (None, st)
      else (case input st of
              [] \<Rightarrow> (None, st\<lparr>cin_fail := True\<rparr>)
            | c # cs \<Rightarrow> (Some c, st\<lparr>input := cs\<rparr>)))"

text \<open>\<open>cin.putback(ch)\<close>: does nothing on a stream whose fail bit is set.\<close>

definition cin_putback :: "char \<Rightarrow> state \<Rightarrow> state" where
  "cin_putback ch st = (if cin_fail st then st else st\<lparr>input := ch # input st\<rparr>)"

definition digit_val :: "char \<Rightarrow> nat" where
  "digit_val c = of_char c - 48"

definition digits_val :: "string \<Rightarrow> nat" where
  "digits_val ds = foldl (\<lambda>a c. 10 * a + digit_val c) 0 ds"

text \<open>
  Modelled from the C++ standard library (\<open>operator>>\<close> for \<open>double\<close> is not code of
  this repository): a decimal literal is read greedily, digits, an optional point with
  digits, and after a mantissa an optional exponent \<open>e\<close> or \<open>E\<close> with an optional
  sign. The result is the value and the unread rest; the value is \<open>None\<close> when the
  characters read are not a number (no digit in the mantissa, or an exponent without
  digits), and then the stream sets its fail bit and stores \<open>0\<close>.
\<close>

definition read_double :: "string \<Rightarrow> real option \<times> string" where
  "read_double cs =
     (let ip = takeWhile isdigit cs;
          r1 = dropWhile isdigit cs;
          fp = (case r1 of [] \<Rightarrow> [] | c # r \<Rightarrow> if c = CHR ''.'' then takeWhile isdigit r else []);
          r2 = (case r1 of [] \<Rightarrow> [] | c # r \<Rightarrow> if c = CHR ''.'' then dropWhile isdigit r else r1);
          m = real (digits_val (ip @ fp)) / 10 ^ length fp
      in if ip @ fp = [] then (None, r2)
         else (case r2 of
                 [] \<Rightarrow> (Some m, r2)
               | c # r \<Rightarrow>
                   if c = CHR ''e'' \<or> c = CHR ''E'' then
                     (let neg = (case r of [] \<Rightarrow> False | s # _ \<Rightarrow> s = CHR ''-'');
                          r3 = (case r of [] \<Rightarrow> []
                                | s # r' \<Rightarrow> if s = CHR ''+'' \<or> s = CHR ''-'' then r' else r);
                          ex = takeWhile isdigit r3;
                          r4 = dropWhile isdigit r3
                      in if ex = [] then (None, r4)
                         else if neg then (Some (m / 10 ^ digits_val ex), r4)
                         else (Some (m * 10 ^ digits_val ex), r4))
                   else (Some m, r2)))"

text \<open>\<open>cin >> val\<close> in a stream that is not failed.\<close>

definition cin_read_double :: "state \<Rightarrow> real \<times> state" where
  "cin_read_double st =
     (if cin_fail st then (0, st)
      else (case read_double (input st) of
              (None, rest) \<Rightarrow> (0, st\<lparr>input := rest, cin_fail := True\<rparr>)
            | (Some v, rest) \<Rightarrow> (v, st\<lparr>input := rest\<rparr>)))"

text \<open>
  The loop \<open>while (cin.get(ch) && (isalpha(ch) || isdigit(ch) || ch == '_')) s += ch;\<close>
  followed by \<open>cin.putback(ch)\<close>, on the unread characters of a good stream: the name, the
  unread rest and the fail bit (set when the loop ends at the end of the input, where the
  putback does nothing).
\<close>

fun read_name :: "string \<Rightarrow> string \<Rightarrow> string \<times> string \<times> bool" where
  "read_name s [] = (s, [], True)"
| "read_name s (c # cs) =
     (if isalpha c \<or> isdigit c \<or> c = CHR ''_'' then read_name (s @ [c]) cs
      else (s, c # cs, False))"

subsection \<open>\<open>Token_stream\<close>\<close>

definition putback :: "token \<Rightarrow> state \<Rightarrow> state" where
  "putback t st = st\<lparr>buffer := t # buffer st\<rparr>"

text \<open>
  The loop \<open>while (isspace(ch) && ch != '\n') cin.get(ch);\<close>. A failing read leaves
  \<open>ch\<close> as it is, so on a failed stream the loop never ends: the fuel runs out.
\<close>

fun skip_space :: "nat \<Rightarrow> char \<Rightarrow> state \<Rightarrow> (error + char) \<times> state" where
  "skip_space 0 ch st =
     (if isspace ch \<and> ch \<noteq> newline then (Inl OutOfFuel, st) else (Inr ch, st))"
| "skip_space (Suc n) ch st =
     (if isspace ch \<and> ch \<noteq> newline
      then (case cin_get st of
              (None, st') \<Rightarrow> skip_space n ch st'
            | (Some c, st') \<Rightarrow> skip_space n c st')
      else (Inr ch, st))"

definition keyword :: "string \<Rightarrow> token" where
  "keyword s =
     (if s = constkey then Token_kind t_const
      else if s = declkey then Token_kind t_decl
      else if s = sqrtkey then Token_kind t_sqrt
      else if s = powkey then Token_kind t_pow
      else if s = helpkey then Token_kind t_help
      else if s = symbkey then Token_kind t_symbols
      else if s = quitkey then Token_kind t_quit
      else Token_name t_name s)"

text \<open>The \<open>switch (ch)\<close> of \<open>Token_stream::get\<close>.\<close>

definition scan :: "char \<Rightarrow> token action" where
  "scan ch st =
     (if ch = t_print \<or> ch = newline then (Inr (Token_kind t_print), st)
      else if ch = t_decl \<or> ch = t_quit \<or> ch = t_assign
              \<or> ch = CHR ''('' \<or> ch = CHR '')'' \<or> ch = CHR ''{'' \<or> ch = CHR ''}''
              \<or> ch = CHR '','' \<or> ch = CHR ''+'' \<or> ch = CHR ''-'' \<or> ch = CHR ''*''
              \<or> ch = CHR ''/'' \<or> ch = CHR ''!''
      then (Inr (Token_kind ch), st)
      else if ch = CHR ''.'' \<or> isdigit ch
      then (case cin_read_double (cin_putback ch st) of
              (val, st') \<Rightarrow> (Inr (Token_number t_number val), st'))
      else if isalpha ch
      then (case read_name [ch] (input st) of
              (s, rest, failed) \<Rightarrow>
                (Inr (keyword s), st\<lparr>input := rest, cin_fail := failed\<rparr>))
      else (Inl BadToken, st))"

definition get :: "nat \<Rightarrow> token action" where
  "get n st =
     (case buffer st of
        t # b \<Rightarrow> (Inr t, st\<lparr>buffer := b\<rparr>)
      | [] \<Rightarrow> bind (skip_space n (CHR '' '')) scan st)"

text \<open>
  \<open>cin >> ch\<close> in the loop of \<open>Token_stream::ignore\<close>: the formatted read skips every
  white space, the newline too. The result is the unread rest and the fail bit.
\<close>

fun ignore_cin :: "char \<Rightarrow> string \<Rightarrow> string \<times> bool" where
  "ignore_cin c [] = ([], True)"
| "ignore_cin c (x # xs) =
     (if isspace x then ignore_cin c xs
      else if x = c then (xs, False)
      else ignore_cin c xs)"

definition ignore :: "char \<Rightarrow> state \<Rightarrow> state" where
  "ignore c st =
     (let b = dropWhile (\<lambda>t. kind t \<noteq> c) (buffer st)
      in if b \<noteq> [] then st\<lparr>buffer := b\<rparr>
         else if cin_fail st then st\<lparr>buffer := b\<rparr>
         else (case ignore_cin c (input st) of
                 (rest, failed) \<Rightarrow> st\<lparr>buffer := b, input := rest, cin_fail := failed\<rparr>))"

section \<open>Arithmetic of the evaluator\<close>

text \<open>
  \<open>static_cast<int>(left)\<close>: the fractional part is dropped (truncation towards zero).
  The conversion is defined only when the truncated value is an \<open>int\<close> of 32 bits.
\<close>

definition double_to_int :: "real \<Rightarrow> int option" where
  "double_to_int d =
     (let n = (if d < 0 then \<lceil>d\<rceil> else \<lfloor>d\<rfloor>)
      in if - 2147483648 \<le> n \<and> n \<le> 2147483647 then Some n else None)"

text \<open>
  The loop of \<open>factorial\<close>: \<open>for (int i = x-1; i > 0; --i) { prev = x; x *= i; ... }\<close>.
  The type \<open>int\<close> has 32 bits and is signed: when the product of \<open>x *= i\<close> is not an
  \<open>int\<close>, the multiplication itself is undefined behaviour, before the test
  \<open>x/prev != i\<close> is reached, and the run ends here with \<open>UndefinedOverflow\<close>.
  Otherwise \<open>x\<close> is the product, \<open>prev\<close> is the \<open>x\<close> of before, and the quotient
  \<open>x/prev\<close> of C++ truncates towards zero (\<open>sdiv\<close>).
\<close>

function fact_loop :: "int \<Rightarrow> int \<Rightarrow> error + int" where
  "fact_loop i x =
     (if i > 0
      then (if x * i < - 2147483648 \<or> 2147483647 < x * i then Inl UndefinedOverflow
            else if x \<noteq> 0 \<and> (x * i) sdiv x \<noteq> i then Inl IntOverflow
            else fact_loop (i - 1) (x * i))
      else Inr x)"
  by pat_completeness auto
termination
  by (relation "measure (\<lambda>(i, x). nat i)") auto

declare fact_loop.simps [simp del]

definition factorial :: "int \<Rightarrow> error + real" where
  "factorial x =
     (if x < 0 then Inl NegativeFactorial
      else (let x1 = (if x = 0 then 1 else x)
            in case fact_loop (x1 - 1) x1 of
                 Inl e \<Rightarrow> Inl e
               | Inr r \<Rightarrow> Inr (real_of_int r)))"

text \<open>The operand expression \<open>factorial(static_cast<int>(left))\<close> of the postfix \<open>!\<close>.\<close>

definition postfix_factorial :: "real \<Rightarrow> error + real" where
  "postfix_factorial left =
     (case double_to_int left of
        None \<Rightarrow> Inl UndefinedCast
      | Some x \<Rightarrow> factorial x)"

text \<open>
  \<open>fmod(left, d)\<close> of the C library, for \<open>d \<noteq> 0\<close>: the remainder of the division
  whose quotient is truncated towards zero. On finite doubles the library's result is
  exact, so it is this real number.
\<close>

definition c_fmod :: "real \<Rightarrow> real \<Rightarrow> real" where
  "c_fmod x y =
     x - y * real_of_int (if x / y < 0 then \<lceil>x / y\<rceil> else \<lfloor>x / y\<rfloor>)"

text \<open>
  \<open>pow(exp1, exp2)\<close> of the C library on the arguments where its result is a real
  number: an integral exponent is a repeated product or quotient, another exponent with
  a positive base is \<open>powr\<close>. Where the library returns an infinity or NaN, the value
  here has no meaning.
\<close>

definition c_pow :: "real \<Rightarrow> real \<Rightarrow> real" where
  "c_pow x y =
     (if y = real_of_int \<lfloor>y\<rfloor>
      then (if 0 \<le> \<lfloor>y\<rfloor> then x ^ nat \<lfloor>y\<rfloor> else 1 / x ^ nat (- \<lfloor>y\<rfloor>))
      else x powr y)"

section \<open>The evaluator\<close>

definition lift :: "error + 'a \<Rightarrow> 'a action" where
  "lift r st = (r, st)"

text \<open>
  The four grammar levels and the function calls are mutually recursive. Each call and
  each turn of a loop spends one unit of fuel; a run that has none left is \<open>OutOfFuel\<close>.
  The loops carry the variables \<open>left\<close> and \<open>t\<close> of the source.
\<close>

fun primary :: "nat \<Rightarrow> real action"
  and eval_function :: "nat \<Rightarrow> token \<Rightarrow> real action"
  and secondary :: "nat \<Rightarrow> real action"
  and secondary_loop :: "nat \<Rightarrow> real \<Rightarrow> token \<Rightarrow> real action"
  and term_level :: "nat \<Rightarrow> real action"
  and term_loop :: "nat \<Rightarrow> real \<Rightarrow> token \<Rightarrow> real action"
  and expression :: "nat \<Rightarrow> real action"
  and expression_loop :: "nat \<Rightarrow> real \<Rightarrow> token \<Rightarrow> real action"
where
  "primary 0 = throw OutOfFuel"
| "primary (Suc n) =
     bind (get n) (\<lambda>t.
       if kind t = CHR ''('' then
         bind (expression n) (\<lambda>d. bind (get n) (\<lambda>t'.
           if kind t' \<noteq> CHR '')'' then throw RParenExpected else return d))
       else if kind t = CHR ''{'' then
         bind (expression n) (\<lambda>d. bind (get n) (\<lambda>t'.
           if kind t' \<noteq> CHR ''}'' then throw RBraceExpected else return d))
       else if kind t = t_sqrt \<or> kind t = t_pow then eval_function n t
       else if kind t = t_number then return (tok_value t)
       else if kind t = CHR ''-'' then bind (primary n) (\<lambda>d. return (- d))
       else if kind t = CHR ''+'' then bind (primary n) (\<lambda>d. return d)
       else if kind t = t_name then (\<lambda>st. (get_value (var_table st) (tok_name t), st))
       else throw PrimaryExpected)"
| "eval_function 0 t = throw OutOfFuel"
| "eval_function (Suc n) t =
     (if kind t = t_sqrt then
        bind (get n) (\<lambda>t1.
          if kind t1 = CHR ''('' then
            bind (expression n) (\<lambda>d. bind (get n) (\<lambda>t2.
              if kind t2 \<noteq> CHR '')'' then throw SqrtRParenExpected
              else if d < 0 then throw SqrtNegative
              else return (sqrt d)))
          else throw SqrtPrimaryExpected)
      else if kind t = t_pow then
        bind (get n) (\<lambda>t1.
          if kind t1 = CHR ''('' then
            bind (expression n) (\<lambda>d1. bind (get n) (\<lambda>t2.
              if kind t2 \<noteq> CHR '','' then throw PowCommaExpected
              else bind (expression n) (\<lambda>d2. bind (get n) (\<lambda>t3.
                if kind t3 \<noteq> CHR '')'' then throw PowRParenExpected
                else return (c_pow d1 d2)))))
          else throw PowPrimaryExpected)
      else throw FunctionNotImplemented)"
| "secondary 0 = throw OutOfFuel"
| "secondary (Suc n) =
     bind (primary n) (\<lambda>left. bind (get n) (\<lambda>t. secondary_loop n left t))"
| "secondary_loop 0 left t = throw OutOfFuel"
| "secondary_loop (Suc n) left t =
     (if kind t = CHR ''!'' then
        bind (lift (postfix_factorial left)) (\<lambda>l.
          bind (get n) (\<lambda>t'. secondary_loop n l t'))
      else (\<lambda>st. (Inr left, putback t st)))"
| "term_level 0 = throw OutOfFuel"
| "term_level (Suc n) =
     bind (secondary n) (\<lambda>left. bind (get n) (\<lambda>t. term_loop n left t))"
| "term_loop 0 left t = throw OutOfFuel"
| "term_loop (Suc n) left t =
     (if kind t = CHR ''*'' then
        bind (secondary n) (\<lambda>d.
          bind (get n) (\<lambda>t'. term_loop n (left * d) t'))
      else if kind t = CHR ''/'' then
        bind (secondary n) (\<lambda>d.
          if d = 0 then throw DivideByZero
          else bind (get n) (\<lambda>t'. term_loop n (left / d) t'))
      else if kind t = CHR ''%'' then
        bind (secondary n) (\<lambda>d.
          if d = 0 then throw ModDivideByZero
          else bind (get n) (\<lambda>t'. term_loop n (c_fmod left d) t'))
      else (\<lambda>st. (Inr left, putback t st)))"
| "expression 0 = throw OutOfFuel"
| "expression (Suc n) =
     bind (term_level n) (\<lambda>left. bind (get n) (\<lambda>t. expression_loop n left t))"
| "expression_loop 0 left t = throw OutOfFuel"
| "expression_loop (Suc n) left t =
     (if kind t = CHR ''+'' then
        bind (term_level n) (\<lambda>d.
          bind (get n) (\<lambda>t'. expression_loop n (left + d) t'))
      else if kind t = CHR ''-'' then
        bind (term_level n) (\<lambda>d.
          bind (get n) (\<lambda>t'. expression_loop n (left - d) t'))
      else (\<lambda>st. (Inr left, putback t st)))"

section \<open>Statements and the main loop\<close>

definition define_action :: "string \<Rightarrow> real \<Rightarrow> bool \<Rightarrow> real action" where
  "define_action var val c st =
     (case define_name (var_table st) var val c of
        Inl e \<Rightarrow> (Inl e, st)
      | Inr (v, tbl) \<Rightarrow> (Inr v, st\<lparr>var_table := tbl\<rparr>))"

definition set_action :: "string \<Rightarrow> real \<Rightarrow> unit action" where
  "set_action var d st =
     (case set_value (var_table st) var d of
        Inl e \<Rightarrow> (Inl e, st)
      | Inr tbl \<Rightarrow> (Inr (), st\<lparr>var_table := tbl\<rparr>))"

definition declaration_stmt :: "nat \<Rightarrow> bool \<Rightarrow> real action" where
  "declaration_stmt n c =
     bind (get n) (\<lambda>t.
       if kind t \<noteq> t_name then throw NameExpected
       else bind (get n) (\<lambda>t2.
         if kind t2 \<noteq> CHR ''='' then throw (EqMissing (tok_name t))
         else bind (expression n) (\<lambda>d.
           bind (define_action (tok_name t) d c) (\<lambda>_. return d))))"

definition assignment :: "nat \<Rightarrow> real action" where
  "assignment n =
     bind (get n) (\<lambda>t st.
       if \<not> is_declared (var_table st) (tok_name t) then (Inl (NotDeclared (tok_name t)), st)
       else bind (get n) (\<lambda>_.
              bind (expression n) (\<lambda>d.
                bind (set_action (tok_name t) d) (\<lambda>_. return d))) st)"

definition statement :: "nat \<Rightarrow> real action" where
  "statement n =
     bind (get n) (\<lambda>t.
       if kind t = t_const then declaration_stmt n True
       else if kind t = t_decl then declaration_stmt n False
       else if kind t = t_name then
         bind (get n) (\<lambda>t2 st.
           if kind t2 = t_assign then assignment n (putback t (putback t2 st))
           else expression n (putback t (putback t2 st)))
       else (\<lambda>st. expression n (putback t st)))"

definition clean_up :: "state \<Rightarrow> state" where
  "clean_up st = ignore t_print st"

text \<open>
  What the loop writes: the prompt, the result marker (written before the statement is
  evaluated, as the operands of \<open><<\<close> are evaluated from the left), the value, the
  error line, the help text and the listing of the symbols.
\<close>

datatype out_event =
    Prompt
  | ResultMark
  | Value real
  | ErrorLine error
  | HelpText
  | SymbolList "(string \<times> real) list"

definition print_symbols :: "variable list \<Rightarrow> out_event" where
  "print_symbols tbl = SymbolList (map (\<lambda>v. (var_name v, var_value v)) tbl)"

text \<open>The loop \<open>while (t.kind == t_print) t = ts.get();\<close>.\<close>

fun skip_prints :: "nat \<Rightarrow> token \<Rightarrow> token action" where
  "skip_prints 0 t = (if kind t = t_print then throw OutOfFuel else return t)"
| "skip_prints (Suc n) t = (if kind t = t_print then bind (get n) (skip_prints n) else return t)"

text \<open>
  How \<open>calculate\<close> ends: it returns at the quit token, it leaves the loop when \<open>cin\<close>
  is failed, or (in the model only) it does not end within the fuel or meets
  undefined behaviour.
\<close>

datatype ending = Quit | InputFailed | Aborted error

text \<open>
  The body of the \<open>try\<close> block: what it writes, and either the exception it throws or
  whether it returns from \<open>calculate\<close>.
\<close>

definition try_block :: "nat \<Rightarrow> state \<Rightarrow> out_event list \<times> (error + bool) \<times> state" where
  "try_block n st =
     (case bind (get n) (skip_prints n) st of
        (Inl e, st1) \<Rightarrow> ([Prompt], Inl e, st1)
      | (Inr t, st1) \<Rightarrow>
          if kind t = t_quit then ([Prompt], Inr True, st1)
          else if kind t = t_help then ([Prompt, HelpText], Inr False, st1)
          else if kind t = t_symbols
          then ([Prompt, print_symbols (var_table st1)], Inr False, st1)
          else (case statement n (putback t st1) of
                  (Inl e, st2) \<Rightarrow> ([Prompt, ResultMark], Inl e, st2)
                | (Inr v, st2) \<Rightarrow> ([Prompt, ResultMark, Value v], Inr False, st2)))"

fun calculate :: "nat \<Rightarrow> state \<Rightarrow> out_event list \<times> ending \<times> state" where
  "calculate 0 st = (if cin_fail st then ([], InputFailed, st) else ([], Aborted OutOfFuel, st))"
| "calculate (Suc n) st =
     (if cin_fail st then ([], InputFailed, st)
      else (case try_block n st of
              (out, Inr True, st1) \<Rightarrow> (out, Quit, st1)
            | (out, Inr False, st1) \<Rightarrow>
                (case calculate n st1 of (out', r) \<Rightarrow> (out @ out', r))
            | (out, Inl e, st1) \<Rightarrow>
                if e = OutOfFuel \<or> e = UndefinedCast \<or> e = UndefinedOverflow
                then (out, Aborted e, st1)
                else (case calculate n (clean_up st1) of
                        (out', r) \<Rightarrow> (out @ ErrorLine e # out', r))))"

text \<open>\<open>main\<close>: the session that starts with the input \<open>cs\<close> on \<open>cin\<close>.\<close>

definition start :: "string \<Rightarrow> state" where
  "start cs = \<lparr>buffer = [], input = cs, cin_fail = False, var_table = startup_table\<rparr>"

definition main :: "nat \<Rightarrow> string \<Rightarrow> out_event list \<times> ending \<times> state" where
  "main n cs = calculate n (start cs)"

section \<open>Well-formed expressions\<close>

text \<open>
  The grammar of the header comment of the source, one datatype for each level:
  \<open>Expression: Term | Expression "+" Term | Expression "-" Term\<close>,
  \<open>Term: Secondary | Term "*" Secondary | Term "/" Secondary | Term "%" Secondary\<close>,
  \<open>Secondary: Primary | Secondary "!"\<close>, and the primaries. A tree of this grammar is
  a well-formed expression; \<open>tokens_expr\<close> is the token sequence that spells it.
\<close>

datatype prim =
    PNumber real
  | PParen expr
  | PBrace expr
  | PNeg prim
  | PPos prim
  | PName string
  | PSqrt expr
  | PPow expr expr
and sec =
    SPrimary prim
  | SFactorial sec
and trm =
    TSecondary sec
  | TMul trm sec
  | TDiv trm sec
  | TMod trm sec
and expr =
    ETerm trm
  | EAdd expr trm
  | ESub expr trm

fun tokens_prim :: "prim \<Rightarrow> token list"
  and tokens_sec :: "sec \<Rightarrow> token list"
  and tokens_trm :: "trm \<Rightarrow> token list"
  and tokens_expr :: "expr \<Rightarrow> token list"
where
  "tokens_prim (PNumber v) = [Token_number t_number v]"
| "tokens_prim (PParen e) = Token_kind (CHR ''('') # tokens_expr e @ [Token_kind (CHR '')'')]"
| "tokens_prim (PBrace e) = Token_kind (CHR ''{'') # tokens_expr e @ [Token_kind (CHR ''}'')]"
| "tokens_prim (PNeg p) = Token_kind (CHR ''-'') # tokens_prim p"
| "tokens_prim (PPos p) = Token_kind (CHR ''+'') # tokens_prim p"
| "tokens_prim (PName s) = [Token_name t_name s]"
| "tokens_prim (PSqrt e) =
     Token_kind t_sqrt # Token_kind (CHR ''('') # tokens_expr e @ [Token_kind (CHR '')'')]"
| "tokens_prim (PPow a b) =
     Token_kind t_pow # Token_kind (CHR ''('') # tokens_expr a
       @ Token_kind (CHR '','') # tokens_expr b @ [Token_kind (CHR '')'')]"
| "tokens_sec (SPrimary p) = tokens_prim p"
| "tokens_sec (SFactorial s) = tokens_sec s @ [Token_kind (CHR ''!'')]"
| "tokens_trm (TSecondary s) = tokens_sec s"
| "tokens_trm (TMul t s) = tokens_trm t @ Token_kind (CHR ''*'') # tokens_sec s"
| "tokens_trm (TDiv t s) = tokens_trm t @ Token_kind (CHR ''/'') # tokens_sec s"
| "tokens_trm (TMod t s) = tokens_trm t @ Token_kind (CHR ''%'') # tokens_sec s"
| "tokens_expr (ETerm t) = tokens_trm t"
| "tokens_expr (EAdd e t) = tokens_expr e @ Token_kind (CHR ''+'') # tokens_trm t"
| "tokens_expr (ESub e t) = tokens_expr e @ Token_kind (CHR ''-'') # tokens_trm t"

text \<open>
  The value the specification gives a well-formed expression: the operators of one level
  associate to the left (the tree of the grammar is left-nested), a level binds tighter
  than the level above it, and the first failure, from left to right, is the result.
  The table \<open>tbl\<close> resolves the names.
\<close>

definition unary :: "(error + real) \<Rightarrow> (real \<Rightarrow> error + real) \<Rightarrow> error + real" where
  "unary a f = (case a of Inl e \<Rightarrow> Inl e | Inr x \<Rightarrow> f x)"

definition binary ::
  "(error + real) \<Rightarrow> (error + real) \<Rightarrow> (real \<Rightarrow> real \<Rightarrow> error + real) \<Rightarrow> error + real" where
  "binary a b f =
     (case a of Inl e \<Rightarrow> Inl e | Inr x \<Rightarrow> (case b of Inl e \<Rightarrow> Inl e | Inr y \<Rightarrow> f x y))"

fun value_prim :: "variable list \<Rightarrow> prim \<Rightarrow> error + real"
  and value_sec :: "variable list \<Rightarrow> sec \<Rightarrow> error + real"
  and value_trm :: "variable list \<Rightarrow> trm \<Rightarrow> error + real"
  and value_expr :: "variable list \<Rightarrow> expr \<Rightarrow> error + real"
where
  "value_prim tbl (PNumber v) = Inr v"
| "value_prim tbl (PParen e) = value_expr tbl e"
| "value_prim tbl (PBrace e) = value_expr tbl e"
| "value_prim tbl (PNeg p) = unary (value_prim tbl p) (\<lambda>x. Inr (- x))"
| "value_prim tbl (PPos p) = value_prim tbl p"
| "value_prim tbl (PName s) = get_value tbl s"
| "value_prim tbl (PSqrt e) =
     unary (value_expr tbl e) (\<lambda>x. if x < 0 then Inl SqrtNegative else Inr (sqrt x))"
| "value_prim tbl (PPow a b) =
     binary (value_expr tbl a) (value_expr tbl b) (\<lambda>x y. Inr (c_pow x y))"
| "value_sec tbl (SPrimary p) = value_prim tbl p"
| "value_sec tbl (SFactorial s) = unary (value_sec tbl s) postfix_factorial"
| "value_trm tbl (TSecondary s) = value_sec tbl s"
| "value_trm tbl (TMul t s) = binary (value_trm tbl t) (value_sec tbl s) (\<lambda>x y. Inr (x * y))"
| "value_trm tbl (TDiv t s) =
     binary (value_trm tbl t) (value_sec tbl s)
       (\<lambda>x y. if y = 0 then Inl DivideByZero else Inr (x / y))"
| "value_trm tbl (TMod t s) =
     binary (value_trm tbl t) (value_sec tbl s)
       (\<lambda>x y. if y = 0 then Inl ModDivideByZero else Inr (c_fmod x y))"
| "value_expr tbl (ETerm t) = value_trm tbl t"
| "value_expr tbl (EAdd e t) = binary (value_expr tbl e) (value_trm tbl t) (\<lambda>x y. Inr (x + y))"
| "value_expr tbl (ESub e t) = binary (value_expr tbl e) (value_trm tbl t) (\<lambda>x y. Inr (x - y))"

text \<open>
  Fuel that is enough to evaluate a tree, and the number of operators on the spine of
  each level (the turns of the level's loop).
\<close>

fun need_prim :: "prim \<Rightarrow> nat"
  and need_sec :: "sec \<Rightarrow> nat"
  and need_trm :: "trm \<Rightarrow> nat"
  and need_expr :: "expr \<Rightarrow> nat"
where
  "need_prim (PNumber v) = 1"
| "need_prim (PParen e) = 1 + need_expr e"
| "need_prim (PBrace e) = 1 + need_expr e"
| "need_prim (PNeg p) = 1 + need_prim p"
| "need_prim (PPos p) = 1 + need_prim p"
| "need_prim (PName s) = 1"
| "need_prim (PSqrt e) = 2 + need_expr e"
| "need_prim (PPow a b) = 2 + need_expr a + need_expr b"
| "need_sec (SPrimary p) = 1 + need_prim p"
| "need_sec (SFactorial s) = 1 + need_sec s"
| "need_trm (TSecondary s) = 1 + need_sec s"
| "need_trm (TMul t s) = 1 + need_trm t + need_sec s"
| "need_trm (TDiv t s) = 1 + need_trm t + need_sec s"
| "need_trm (TMod t s) = 1 + need_trm t + need_sec s"
| "need_expr (ETerm t) = 1 + need_trm t"
| "need_expr (EAdd e t) = 1 + need_expr e + need_trm t"
| "need_expr (ESub e t) = 1 + need_expr e + need_trm t"

fun bangs :: "sec \<Rightarrow> nat" where
  "bangs (SPrimary p) = 0"
| "bangs (SFactorial s) = 1 + bangs s"

fun mulops :: "trm \<Rightarrow> nat" where
  "mulops (TSecondary s) = 0"
| "mulops (TMul t s) = 1 + mulops t"
| "mulops (TDiv t s) = 1 + mulops t"
| "mulops (TMod t s) = 1 + mulops t"

fun addops :: "expr \<Rightarrow> nat" where
  "addops (ETerm t) = 0"
| "addops (EAdd e t) = 1 + addops e"
| "addops (ESub e t) = 1 + addops e"

section \<open>Properties of the symbol table\<close>

lemmas kind_defs = t_number_def t_print_def t_name_def t_quit_def t_sqrt_def t_pow_def
  t_decl_def t_assign_def t_const_def t_help_def t_symbols_def

lemmas key_defs = quitkey_def declkey_def constkey_def helpkey_def symbkey_def
  sqrtkey_def powkey_def

lemma startup_table_eq:
  "startup_table =
     [\<lparr>var_name = ''pi'', var_value = 31415926535 / 10000000000, var_constant = True\<rparr>,
      \<lparr>var_name = ''e'', var_value = 27182818284 / 10000000000, var_constant = True\<rparr>,
      \<lparr>var_name = ''k'', var_value = 1000, var_constant = False\<rparr>]"
  by (simp add: startup_table_def define_name_def is_declared_def)

lemma is_declared_iff: "is_declared tbl s \<longleftrightarrow> s \<in> set (map var_name tbl)"
  by (auto simp: is_declared_def list_ex_iff)

lemma set_value_undeclared:
  "\<not> is_declared tbl s \<Longrightarrow> set_value tbl s d = Inl (UndefinedWrite s)"
  by (induction tbl) (auto simp: is_declared_def)

lemma set_value_constant:
  "is_declared tbl s \<Longrightarrow> \<forall>v\<in>set tbl. var_name v = s \<longrightarrow> var_constant v
   \<Longrightarrow> set_value tbl s d = Inl ConstantWrite"
  by (induction tbl) (auto simp: is_declared_def)

lemma set_value_mutable:
  "is_declared tbl s \<Longrightarrow> \<forall>v\<in>set tbl. var_name v = s \<longrightarrow> \<not> var_constant v
   \<Longrightarrow> \<exists>i<length tbl. var_name (tbl ! i) = s \<and> (\<forall>j<i. var_name (tbl ! j) \<noteq> s)
         \<and> set_value tbl s d = Inr (tbl[i := (tbl ! i)\<lparr>var_value := d\<rparr>])"
proof (induction tbl)
  case Nil
  then show ?case by (simp add: is_declared_def)
next
  case (Cons v vs)
  show ?case
  proof (cases "var_name v = s")
    case True
    with Cons.prems have "set_value (v # vs) s d = Inr ((v # vs)[0 := ((v # vs) ! 0)\<lparr>var_value := d\<rparr>])"
      by simp
    with True show ?thesis by (intro exI [of _ 0]) simp
  next
    case False
    with Cons.prems have "is_declared vs s" and "\<forall>u\<in>set vs. var_name u = s \<longrightarrow> \<not> var_constant u"
      by (auto simp: is_declared_def)
    from Cons.IH [OF this] obtain i where i: "i < length vs" "var_name (vs ! i) = s"
      "\<forall>j<i. var_name (vs ! j) \<noteq> s" "set_value vs s d = Inr (vs[i := (vs ! i)\<lparr>var_value := d\<rparr>])"
      by blast
    have "\<forall>j<Suc i. var_name ((v # vs) ! j) \<noteq> s"
      using False i(3) by (auto simp: nth_Cons split: nat.splits)
    with i False show ?thesis by (intro exI [of _ "Suc i"]) simp
  qed
qed

text \<open>
  Claim C6. \<open>set_value\<close> on a name that is not in the table fails with
  \<open>UndefinedWrite\<close>; on a name that is in the table and marked constant it fails with
  \<open>ConstantWrite\<close>; in both cases the session, and so every stored value, is as it was.
  On a name that is in the table and not constant it overwrites the value of the first
  entry of that name in place and touches nothing else. In the startup table, assigning
  to \<open>pi\<close> fails with \<open>ConstantWrite\<close> and \<open>pi\<close> keeps the value 3.1415926535.
\<close>

theorem set_value_contract:
  "(\<not> is_declared (var_table st) s \<longrightarrow>
      set_action s d st = (Inl (UndefinedWrite s), st))
 \<and> (is_declared (var_table st) s \<and> (\<forall>v\<in>set (var_table st). var_name v = s \<longrightarrow> var_constant v) \<longrightarrow>
      set_action s d st = (Inl ConstantWrite, st))
 \<and> (is_declared (var_table st) s \<and> (\<forall>v\<in>set (var_table st). var_name v = s \<longrightarrow> \<not> var_constant v) \<longrightarrow>
      (\<exists>i<length (var_table st). var_name (var_table st ! i) = s
          \<and> (\<forall>j<i. var_name (var_table st ! j) \<noteq> s)
          \<and> set_action s d st =
              (Inr (), st\<lparr>var_table := (var_table st)[i := (var_table st ! i)\<lparr>var_value := d\<rparr>]\<rparr>)))
 \<and> set_action ''pi'' 4 (start cs) = (Inl ConstantWrite, start cs)
 \<and> get_value (var_table (start cs)) ''pi'' = Inr (31415926535 / 10000000000)"
proof (intro conjI impI)
  assume "\<not> is_declared (var_table st) s"
  then show "set_action s d st = (Inl (UndefinedWrite s), st)"
    by (simp add: set_action_def set_value_undeclared)
next
  assume "is_declared (var_table st) s \<and> (\<forall>v\<in>set (var_table st). var_name v = s \<longrightarrow> var_constant v)"
  then show "set_action s d st = (Inl ConstantWrite, st)"
    by (simp add: set_action_def set_value_constant)
next
  assume "is_declared (var_table st) s \<and> (\<forall>v\<in>set (var_table st). var_name v = s \<longrightarrow> \<not> var_constant v)"
  then obtain i where "i < length (var_table st)" "var_name (var_table st ! i) = s"
      "\<forall>j<i. var_name (var_table st ! j) \<noteq> s"
      "set_value (var_table st) s d = Inr ((var_table st)[i := (var_table st ! i)\<lparr>var_value := d\<rparr>])"
    using set_value_mutable [of "var_table st" s d] by blast
  then show "\<exists>i<length (var_table st). var_name (var_table st ! i) = s
          \<and> (\<forall>j<i. var_name (var_table st ! j) \<noteq> s)
          \<and> set_action s d st =
              (Inr (), st\<lparr>var_table := (var_table st)[i := (var_table st ! i)\<lparr>var_value := d\<rparr>]\<rparr>)"
    by (intro exI [of _ i]) (simp add: set_action_def)
next
  show "set_action ''pi'' 4 (start cs) = (Inl ConstantWrite, start cs)"
    by (simp add: set_action_def start_def startup_table_def define_name_def is_declared_def)
next
  show "get_value (var_table (start cs)) ''pi'' = Inr (31415926535 / 10000000000)"
    by (simp add: start_def startup_table_def define_name_def is_declared_def)
qed

theorem set_value_contract_witness:
  "is_declared (var_table (start [])) ''k''
   \<and> is_declared (var_table (start [])) ''e''
   \<and> \<not> is_declared (var_table (start [])) ''x''
   \<and> set_action ''x'' 7 (start []) = (Inl (UndefinedWrite ''x''), start [])
   \<and> set_action ''e'' 7 (start []) = (Inl ConstantWrite, start [])
   \<and> (\<exists>i<length (var_table (start [])). var_name (var_table (start []) ! i) = ''k''
          \<and> (\<forall>j<i. var_name (var_table (start []) ! j) \<noteq> ''k'')
          \<and> set_action ''k'' 7 (start []) =
              (Inr (), (start [])\<lparr>var_table := (var_table (start []))[i := (var_table (start []) ! i)\<lparr>var_value := 7\<rparr>]\<rparr>))"
proof -
  have tbl: "var_table (start []) =
     [\<lparr>var_name = ''pi'', var_value = 31415926535 / 10000000000, var_constant = True\<rparr>,
      \<lparr>var_name = ''e'', var_value = 27182818284 / 10000000000, var_constant = True\<rparr>,
      \<lparr>var_name = ''k'', var_value = 1000, var_constant = False\<rparr>]"
    by (simp add: start_def startup_table_def define_name_def is_declared_def)
  have h1: "is_declared (var_table (start [])) ''k''
     \<and> (\<forall>v\<in>set (var_table (start [])). var_name v = ''k'' \<longrightarrow> \<not> var_constant v)"
    by (simp add: tbl is_declared_def)
  have h2: "is_declared (var_table (start [])) ''e''
     \<and> (\<forall>v\<in>set (var_table (start [])). var_name v = ''e'' \<longrightarrow> var_constant v)"
    by (simp add: tbl is_declared_def)
  have h3: "\<not> is_declared (var_table (start [])) ''x''"
    by (simp add: tbl is_declared_def)
  note c1 = set_value_contract [of "start []" "''x''" 7 "[]", THEN conjunct1, rule_format, OF h3]
  note c2 = set_value_contract [of "start []" "''e''" 7 "[]", THEN conjunct2, THEN conjunct1, rule_format, OF h2]
  note c3 = set_value_contract [of "start []" "''k''" 7 "[]", THEN conjunct2, THEN conjunct2, THEN conjunct1, rule_format, OF h1]
  from h1 h2 h3 c1 c2 c3 show ?thesis by blast
qed

lemma set_value_names: "set_value tbl s d = Inr tbl' \<Longrightarrow> map var_name tbl' = map var_name tbl"
  by (induction tbl arbitrary: tbl') (auto split: if_splits sum.splits)

lemma apply_table_op_distinct:
  "distinct (map var_name tbl) \<Longrightarrow> distinct (map var_name (apply_table_op tbl p))"
  by (cases p) (auto simp: define_name_def is_declared_iff set_value_names split: sum.splits)

lemma foldl_table_ops_distinct:
  "distinct (map var_name tbl) \<Longrightarrow> distinct (map var_name (foldl apply_table_op tbl ops))"
  by (induction ops arbitrary: tbl) (simp_all add: apply_table_op_distinct)

text \<open>
  Claim C8. In every table reached from the startup table by any sequence of
  \<open>define_name\<close>, \<open>set_value\<close>, \<open>get_value\<close> and \<open>is_declared\<close> calls, failing
  calls included, the names are pairwise distinct: \<open>define_name\<close> fails with
  \<open>DeclaredTwice\<close> on a name that is present and appends one entry otherwise, and no
  call turns a table of distinct names into one with a repeated name.
\<close>

theorem table_names_distinct:
  "distinct (map var_name (foldl apply_table_op startup_table ops))
 \<and> (is_declared tbl s \<longrightarrow> define_name tbl s d c = Inl (DeclaredTwice s))
 \<and> (\<not> is_declared tbl s \<longrightarrow>
       define_name tbl s d c = Inr (d, tbl @ [\<lparr>var_name = s, var_value = d, var_constant = c\<rparr>]))
 \<and> (distinct (map var_name tbl) \<longrightarrow> distinct (map var_name (apply_table_op tbl p)))"
proof (intro conjI)
  show "distinct (map var_name (foldl apply_table_op startup_table ops))"
    by (rule foldl_table_ops_distinct) (simp add: startup_table_eq)
qed (simp_all add: define_name_def apply_table_op_distinct)

theorem table_names_distinct_witness:
  "is_declared startup_table ''pi''
 \<and> define_name startup_table ''pi'' 3 False = Inl (DeclaredTwice ''pi'')
 \<and> \<not> is_declared startup_table ''x''
 \<and> define_name startup_table ''x'' 5 False
      = Inr (5, startup_table @ [\<lparr>var_name = ''x'', var_value = 5, var_constant = False\<rparr>])
 \<and> distinct (map var_name startup_table)
 \<and> distinct (map var_name (apply_table_op startup_table (Define_name ''x'' 5 False)))
 \<and> distinct (map var_name (foldl apply_table_op startup_table
      [Define_name ''x'' 5 False, Define_name ''x'' 6 True, Set_value ''x'' 7, Set_value ''pi'' 4,
       Get_value ''y'', Is_declared ''x'']))"
proof -
  have h1: "is_declared startup_table ''pi''" by (simp add: startup_table_eq is_declared_def)
  have h2: "\<not> is_declared startup_table ''x''" by (simp add: startup_table_eq is_declared_def)
  have h3: "distinct (map var_name startup_table)" by (simp add: startup_table_eq)
  note t1 = table_names_distinct [of "[Define_name ''x'' 5 False, Define_name ''x'' 6 True, Set_value ''x'' 7, Set_value ''pi'' 4,
       Get_value ''y'', Is_declared ''x'']" startup_table "''pi''" 3 False "Define_name ''x'' 5 False"]
  note t2 = table_names_distinct [of "[]" startup_table "''x''" 5 False "Define_name ''x'' 5 False"]
  from h1 h2 h3 t1 t2 show ?thesis by blast
qed

section \<open>Properties of the token stream\<close>

text \<open>
  Claim C9. In every state of the token stream, \<open>putback t\<close> followed by \<open>get\<close>
  returns exactly \<open>t\<close> and leaves the state as it was before the putback. After
  \<open>putback a\<close> and \<open>putback b\<close> the next two calls of \<open>get\<close> return \<open>b\<close> and then
  \<open>a\<close>: the order in which \<open>statement\<close> rolls back its two tokens.
\<close>

theorem putback_get_lifo:
  "get n (putback t st) = (Inr t, st)
 \<and> get n (putback b (putback a st)) = (Inr b, putback a st)
 \<and> bind (get n) (\<lambda>x. bind (get m) (\<lambda>y. return (x, y))) (putback b (putback a st)) = (Inr (b, a), st)"
  by (simp add: get_def putback_def bind_def return_def)

theorem putback_get_lifo_witness:
  "get 0 (putback (Token_kind CHR ''='') (start ''1'')) = (Inr (Token_kind CHR ''=''), start ''1'')
 \<and> bind (get 0) (\<lambda>x. bind (get 0) (\<lambda>y. return (x, y)))
       (putback (Token_name t_name ''x'') (putback (Token_kind CHR ''='') (start ''1'')))
     = (Inr (Token_name t_name ''x'', Token_kind CHR ''=''), start ''1'')"
  using putback_get_lifo [where n = 0 and m = 0 and t = "Token_kind CHR ''=''" and st = "start ''1''"
      and b = "Token_name t_name ''x''" and a = "Token_kind CHR ''=''"]
  by simp


section \<open>Properties of the factorial\<close>

lemma sdiv_exact: "0 < x \<Longrightarrow> 0 \<le> i \<Longrightarrow> (x * i) sdiv x = (i::int)"
  by (cases "i = 0") (simp_all add: signed_divide_int_def sgn_mult abs_mult)

text \<open>
  As long as every product is an \<open>int\<close>, the loop multiplies \<open>x\<close> by the factorial of
  \<open>i\<close>; the first product that is not an \<open>int\<close> is the undefined multiplication.
\<close>

lemma fact_loop_spec:
  "0 \<le> i \<Longrightarrow> 1 \<le> x \<Longrightarrow> x \<le> 2147483647 \<Longrightarrow>
   fact_loop i x =
     (if x * fact (nat i) \<le> 2147483647 then Inr (x * fact (nat i)) else Inl UndefinedOverflow)"
proof (induction i x rule: fact_loop.induct)
  case (1 i x)
  show ?case
  proof (cases "0 < i")
    case False
    with 1 have "i = 0" by simp
    with 1 show ?thesis by (simp add: fact_loop.simps)
  next
    case True
    have f: "(fact (nat i) :: int) = i * fact (nat (i - 1))"
      using True by (simp add: fact_num_eq_if nat_diff_distrib)
    have pos: "1 \<le> x * i" using True "1.prems" int_one_le_iff_zero_less by auto
    show ?thesis
    proof (cases "x * i \<le> 2147483647")
      case fits: True
      have r: "\<not> (x * i < - 2147483648 \<or> 2147483647 < x * i)" using fits pos by simp
      have d': "(x * i) sdiv x = i" using True "1.prems" by (simp add: sdiv_exact)
      then have d: "\<not> (x \<noteq> 0 \<and> (x * i) sdiv x \<noteq> i)" by simp
      have step: "fact_loop i x = fact_loop (i - 1) (x * i)"
        using True r d' by (subst fact_loop.simps) simp
      have "fact_loop (i - 1) (x * i) =
        (if x * i * fact (nat (i - 1)) \<le> 2147483647 then Inr (x * i * fact (nat (i - 1)))
         else Inl UndefinedOverflow)"
        using "1.IH" [OF True r d] True pos fits by simp
      with step f show ?thesis by (simp add: mult.assoc)
    next
      case over: False
      then have step: "fact_loop i x = Inl UndefinedOverflow"
        using True by (subst fact_loop.simps) simp
      have "(1::int) \<le> fact (nat (i - 1))" by (simp add: fact_ge_1)
      then have "x * i * 1 \<le> x * i * fact (nat (i - 1))"
        using True "1.prems" by (intro mult_left_mono) auto
      with over have "\<not> x * fact (nat i) \<le> 2147483647" by (simp add: f mult.assoc)
      with step show ?thesis by simp
    qed
  qed
qed

lemma factorial_spec:
  assumes "- 2147483648 \<le> n" "n \<le> 2147483647"
  shows "factorial n =
     (if n < 0 then Inl NegativeFactorial
      else if (fact (nat n) :: int) \<le> 2147483647 then Inr (real_of_int (fact (nat n)))
      else Inl UndefinedOverflow)"
proof (cases "n < 0")
  case True
  then show ?thesis by (simp add: factorial_def)
next
  case False
  show ?thesis
  proof (cases "n = 0")
    case True
    then show ?thesis by (simp add: factorial_def fact_loop.simps)
  next
    case nz: False
    with False have pos: "1 \<le> n" by simp
    have "(fact (nat n) :: int) = n * fact (nat (n - 1))"
      using pos by (simp add: fact_num_eq_if nat_diff_distrib)
    moreover have "fact_loop (n - 1) n =
      (if n * fact (nat (n - 1)) \<le> 2147483647 then Inr (n * fact (nat (n - 1)))
       else Inl UndefinedOverflow)"
      using pos assms by (intro fact_loop_spec) auto
    ultimately show ?thesis using False nz by (simp add: factorial_def)
  qed
qed

text \<open>
  The test \<open>x/prev != i\<close> never fires in a run whose behaviour is defined: a product
  that is an \<open>int\<close> divides back exactly.
\<close>

lemma fact_loop_never_reports:
  "1 \<le> x \<Longrightarrow> fact_loop i x \<noteq> Inl IntOverflow"
proof (induction i x rule: fact_loop.induct)
  case (1 i x)
  show ?case
  proof (cases "0 < i")
    case False
    then show ?thesis by (simp add: fact_loop.simps)
  next
    case True
    show ?thesis
    proof (cases "x * i < - 2147483648 \<or> 2147483647 < x * i")
      case undefined: True
      with True show ?thesis by (subst fact_loop.simps) simp
    next
      case r: False
      have d': "(x * i) sdiv x = i" using True "1.prems" by (simp add: sdiv_exact)
      then have d: "\<not> (x \<noteq> 0 \<and> (x * i) sdiv x \<noteq> i)" by simp
      have pos: "1 \<le> x * i" using True "1.prems" int_one_le_iff_zero_less by auto
      have "fact_loop i x = fact_loop (i - 1) (x * i)"
        using True r d' by (subst fact_loop.simps) simp
      with "1.IH" [OF True r d pos] show ?thesis by simp
    qed
  qed
qed

lemma factorial_never_reports: "factorial x \<noteq> Inl IntOverflow"
proof (cases "x < 0")
  case True
  then show ?thesis by (simp add: factorial_def)
next
  case False
  then have "1 \<le> (if x = 0 then 1 else x)" by simp
  from fact_loop_never_reports [OF this, of "(if x = 0 then 1 else x) - 1"] False
  show ?thesis
    by (cases "fact_loop ((if x = 0 then 1 else x) - 1) (if x = 0 then 1 else x)")
      (simp_all add: factorial_def)
qed

text \<open>
  Claim C4 at the input \<open>13!\<close>. The product \<open>12!\<close> fits an \<open>int\<close> and is returned.
  For \<open>13\<close> the loop reaches the product of \<open>1037836800\<close> and \<open>3\<close>, which is not an
  \<open>int\<close>: the multiplication is undefined before the overflow test runs. For no operand
  does a run whose behaviour is defined fail with \<open>IntOverflow\<close>; the test can fire only
  after the undefined multiplication, where a build may as well return the wrapped
  product. The conversion of the operand \<open>3000000000\<close> to \<open>int\<close> is undefined too.
\<close>

theorem factorial_overflow_is_undefined:
  "postfix_factorial 13 = Inl UndefinedOverflow
 \<and> fact_loop 3 1037836800 = Inl UndefinedOverflow
 \<and> postfix_factorial 12 = Inr 479001600
 \<and> postfix_factorial v \<noteq> Inl IntOverflow
 \<and> postfix_factorial 3000000000 = Inl UndefinedCast"
proof (intro conjI)
  show "postfix_factorial 13 = Inl UndefinedOverflow"
    using factorial_spec [of 13] by (simp add: postfix_factorial_def double_to_int_def fact_numeral)
  show "fact_loop 3 1037836800 = Inl UndefinedOverflow"
    by (simp add: fact_loop.simps)
  show "postfix_factorial 12 = Inr 479001600"
    using factorial_spec [of 12] by (simp add: postfix_factorial_def double_to_int_def fact_numeral)
  show "postfix_factorial v \<noteq> Inl IntOverflow"
    using factorial_never_reports by (simp add: postfix_factorial_def split: option.splits)
  show "postfix_factorial 3000000000 = Inl UndefinedCast"
    by (simp add: postfix_factorial_def double_to_int_def)
qed

section \<open>Properties of the evaluator\<close>

lemma bind_ok: "m st = (Inr v, st') \<Longrightarrow> bind m f st = f v st'"
  by (simp add: bind_def)

lemma bind_err: "fst (m st) = Inl e \<Longrightarrow> fst (bind m f st) = Inl e"
  by (cases "m st") (auto simp: bind_def split: sum.splits)

lemma bind_get_buffer [simp]:
  "bind (get n) f (st\<lparr>buffer := t # b\<rparr>) = f t (st\<lparr>buffer := b\<rparr>)"
  by (simp add: bind_def get_def)

lemma need_bounds:
  "1 \<le> need_prim p" "bangs s + 2 \<le> need_sec s" "mulops t + 2 \<le> need_trm t"
  "addops e + 2 \<le> need_expr e"
  by (induction p and s and t and e) auto

subsection \<open>One step of each level on a buffered token\<close>

lemma primary_number:
  "primary (Suc k) (st\<lparr>buffer := Token_number t_number v # b\<rparr>) = (Inr v, st\<lparr>buffer := b\<rparr>)"
  by (simp add: Token_number_def kind_defs return_def)

lemma primary_name:
  "primary (Suc k) (st\<lparr>buffer := Token_name t_name s # b\<rparr>)
     = (get_value (var_table st) s, st\<lparr>buffer := b\<rparr>)"
  by (simp add: Token_name_def kind_defs)

lemma primary_paren:
  "primary (Suc k) (st\<lparr>buffer := Token_kind (CHR ''('') # b\<rparr>)
     = bind (expression k) (\<lambda>d. bind (get k) (\<lambda>t'.
         if kind t' \<noteq> CHR '')'' then throw RParenExpected else return d)) (st\<lparr>buffer := b\<rparr>)"
  by (simp add: Token_kind_def)

lemma primary_brace:
  "primary (Suc k) (st\<lparr>buffer := Token_kind (CHR ''{'') # b\<rparr>)
     = bind (expression k) (\<lambda>d. bind (get k) (\<lambda>t'.
         if kind t' \<noteq> CHR ''}'' then throw RBraceExpected else return d)) (st\<lparr>buffer := b\<rparr>)"
  by (simp add: Token_kind_def)

lemma primary_neg:
  "primary (Suc k) (st\<lparr>buffer := Token_kind (CHR ''-'') # b\<rparr>)
     = bind (primary k) (\<lambda>d. return (- d)) (st\<lparr>buffer := b\<rparr>)"
  by (simp add: Token_kind_def kind_defs)

lemma primary_pos:
  "primary (Suc k) (st\<lparr>buffer := Token_kind (CHR ''+'') # b\<rparr>)
     = bind (primary k) (\<lambda>d. return d) (st\<lparr>buffer := b\<rparr>)"
  by (simp add: Token_kind_def kind_defs)

lemma primary_sqrt:
  "primary (Suc (Suc k)) (st\<lparr>buffer := Token_kind t_sqrt # Token_kind (CHR ''('') # b\<rparr>)
     = bind (expression k) (\<lambda>d. bind (get k) (\<lambda>t2.
         if kind t2 \<noteq> CHR '')'' then throw SqrtRParenExpected
         else if d < 0 then throw SqrtNegative
         else return (sqrt d))) (st\<lparr>buffer := b\<rparr>)"
  by (simp add: Token_kind_def kind_defs)

lemma primary_pow:
  "primary (Suc (Suc k)) (st\<lparr>buffer := Token_kind t_pow # Token_kind (CHR ''('') # b\<rparr>)
     = bind (expression k) (\<lambda>d1. bind (get k) (\<lambda>t2.
         if kind t2 \<noteq> CHR '','' then throw PowCommaExpected
         else bind (expression k) (\<lambda>d2. bind (get k) (\<lambda>t3.
           if kind t3 \<noteq> CHR '')'' then throw PowRParenExpected
           else return (c_pow d1 d2))))) (st\<lparr>buffer := b\<rparr>)"
  by (simp add: Token_kind_def kind_defs)

lemma secondary_loop_exit:
  "0 < j \<Longrightarrow> kind t \<noteq> CHR ''!'' \<Longrightarrow>
   secondary_loop j v t (st\<lparr>buffer := b\<rparr>) = (Inr v, st\<lparr>buffer := t # b\<rparr>)"
  by (cases j) (simp_all add: putback_def)

lemma term_loop_exit:
  "0 < j \<Longrightarrow> kind t \<noteq> CHR ''*'' \<Longrightarrow> kind t \<noteq> CHR ''/'' \<Longrightarrow> kind t \<noteq> CHR ''%'' \<Longrightarrow>
   term_loop j v t (st\<lparr>buffer := b\<rparr>) = (Inr v, st\<lparr>buffer := t # b\<rparr>)"
  by (cases j) (simp_all add: putback_def)

lemma expression_loop_exit:
  "0 < j \<Longrightarrow> kind t \<noteq> CHR ''+'' \<Longrightarrow> kind t \<noteq> CHR ''-'' \<Longrightarrow>
   expression_loop j v t (st\<lparr>buffer := b\<rparr>) = (Inr v, st\<lparr>buffer := t # b\<rparr>)"
  by (cases j) (simp_all add: putback_def)


declare primary.simps [simp del] eval_function.simps [simp del] secondary.simps [simp del]
  secondary_loop.simps [simp del] term_level.simps [simp del] term_loop.simps [simp del]
  expression.simps [simp del] expression_loop.simps [simp del]

lemma kind_Token_kind [simp]: "kind (Token_kind c) = c"
  by (simp add: Token_kind_def)

lemma bind_fst:
  "fst (bind m f st) = (case fst (m st) of Inl e \<Rightarrow> Inl e | Inr v \<Rightarrow> fst (f v (snd (m st))))"
  by (cases "m st") (auto simp: bind_def split: sum.splits)

lemma get_buffer [simp]: "get n (st\<lparr>buffer := t # b\<rparr>) = (Inr t, st\<lparr>buffer := b\<rparr>)"
  by (simp add: get_def)

lemma bind_case:
  assumes "case r of Inl err \<Rightarrow> fst (m S) = Inl err | Inr v \<Rightarrow> m S = (Inr v, S')"
  shows "case r of Inl err \<Rightarrow> fst (bind m f S) = Inl err | Inr v \<Rightarrow> bind m f S = f v S'"
  using assms by (cases r) (simp_all add: bind_ok bind_err)

lemma secondary_finish:
  assumes "case r of Inl err \<Rightarrow> fst (secondary n S) = Inl err
           | Inr v \<Rightarrow> secondary n S = secondary_loop j v t0 (st\<lparr>buffer := rest\<rparr>)"
    and "0 < j" and "kind t0 \<noteq> CHR ''!''"
  shows "case r of Inl err \<Rightarrow> fst (secondary n S) = Inl err
         | Inr v \<Rightarrow> secondary n S = (Inr v, st\<lparr>buffer := t0 # rest\<rparr>)"
  using assms by (cases r) (simp_all add: secondary_loop_exit)

lemma term_finish:
  assumes "case r of Inl err \<Rightarrow> fst (term_level n S) = Inl err
           | Inr v \<Rightarrow> term_level n S = term_loop j v t0 (st\<lparr>buffer := rest\<rparr>)"
    and "0 < j" and "kind t0 \<noteq> CHR ''*''" and "kind t0 \<noteq> CHR ''/''" and "kind t0 \<noteq> CHR ''%''"
  shows "case r of Inl err \<Rightarrow> fst (term_level n S) = Inl err
         | Inr v \<Rightarrow> term_level n S = (Inr v, st\<lparr>buffer := t0 # rest\<rparr>)"
  using assms by (cases r) (simp_all add: term_loop_exit)

lemma expression_finish:
  assumes "case r of Inl err \<Rightarrow> fst (expression n S) = Inl err
           | Inr v \<Rightarrow> expression n S = expression_loop j v t0 (st\<lparr>buffer := rest\<rparr>)"
    and "0 < j" and "kind t0 \<noteq> CHR ''+''" and "kind t0 \<noteq> CHR ''-''"
  shows "case r of Inl err \<Rightarrow> fst (expression n S) = Inl err
         | Inr v \<Rightarrow> expression n S = (Inr v, st\<lparr>buffer := t0 # rest\<rparr>)"
  using assms by (cases r) (simp_all add: expression_loop_exit)

subsection \<open>The evaluator computes the value of the grammar tree\<close>

text \<open>
  Each level, started on the tokens of a tree of its kind, either fails with the failure
  the tree's value gives, or has consumed exactly those tokens and stands in its loop with
  the tree's value in \<open>left\<close> and the following token in \<open>t\<close>.
\<close>

lemma parse_levels:
  "need_prim p \<le> n \<Longrightarrow>
     (case value_prim (var_table st) p of
        Inl err \<Rightarrow> fst (primary n (st\<lparr>buffer := tokens_prim p @ rest\<rparr>)) = Inl err
      | Inr v \<Rightarrow> primary n (st\<lparr>buffer := tokens_prim p @ rest\<rparr>) = (Inr v, st\<lparr>buffer := rest\<rparr>))"
  "need_sec s \<le> n \<Longrightarrow>
     (case value_sec (var_table st) s of
        Inl err \<Rightarrow> fst (secondary n (st\<lparr>buffer := tokens_sec s @ t0 # rest\<rparr>)) = Inl err
      | Inr v \<Rightarrow> secondary n (st\<lparr>buffer := tokens_sec s @ t0 # rest\<rparr>)
                  = secondary_loop (n - 1 - bangs s) v t0 (st\<lparr>buffer := rest\<rparr>))"
  "need_trm t \<le> n \<Longrightarrow> kind t0 \<noteq> CHR ''!'' \<Longrightarrow>
     (case value_trm (var_table st) t of
        Inl err \<Rightarrow> fst (term_level n (st\<lparr>buffer := tokens_trm t @ t0 # rest\<rparr>)) = Inl err
      | Inr v \<Rightarrow> term_level n (st\<lparr>buffer := tokens_trm t @ t0 # rest\<rparr>)
                  = term_loop (n - 1 - mulops t) v t0 (st\<lparr>buffer := rest\<rparr>))"
  "need_expr e \<le> n \<Longrightarrow> kind t0 \<notin> set ''!*/%'' \<Longrightarrow>
     (case value_expr (var_table st) e of
        Inl err \<Rightarrow> fst (expression n (st\<lparr>buffer := tokens_expr e @ t0 # rest\<rparr>)) = Inl err
      | Inr v \<Rightarrow> expression n (st\<lparr>buffer := tokens_expr e @ t0 # rest\<rparr>)
                  = expression_loop (n - 1 - addops e) v t0 (st\<lparr>buffer := rest\<rparr>))"
proof (induction p and s and t and e
    arbitrary: n st rest and n st t0 rest and n st t0 rest and n st t0 rest)
  case (PNumber v)
  then obtain k where "n = Suc k" by (cases n) auto
  then show ?case by (simp add: primary_number)
next
  case (PName x)
  then obtain k where "n = Suc k" by (cases n) auto
  then show ?case by (cases "get_value (var_table st) x") (simp_all add: primary_name)
next
  case (PParen e)
  then obtain k where n: "n = Suc k" and k: "need_expr e \<le> k" by (cases n) auto
  have j: "0 < k - 1 - addops e" using k need_bounds(4) [of e] by linarith
  let ?S = "st\<lparr>buffer := tokens_expr e @ Token_kind (CHR '')'') # rest\<rparr>"
  have E: "case value_expr (var_table st) e of
          Inl err \<Rightarrow> fst (expression k ?S) = Inl err
        | Inr v \<Rightarrow> expression k ?S = (Inr v, st\<lparr>buffer := Token_kind (CHR '')'') # rest\<rparr>)"
    by (rule expression_finish [OF PParen.IH [OF k] j]) simp_all
  show ?case
  proof (cases "value_expr (var_table st) e")
    case (Inl err)
    with E show ?thesis by (simp add: n primary_paren bind_fst)
  next
    case (Inr v)
    with E show ?thesis by (simp add: n primary_paren bind_def return_def)
  qed
next
  case (PBrace e)
  then obtain k where n: "n = Suc k" and k: "need_expr e \<le> k" by (cases n) auto
  have j: "0 < k - 1 - addops e" using k need_bounds(4) [of e] by linarith
  let ?S = "st\<lparr>buffer := tokens_expr e @ Token_kind (CHR ''}'') # rest\<rparr>"
  have E: "case value_expr (var_table st) e of
          Inl err \<Rightarrow> fst (expression k ?S) = Inl err
        | Inr v \<Rightarrow> expression k ?S = (Inr v, st\<lparr>buffer := Token_kind (CHR ''}'') # rest\<rparr>)"
    by (rule expression_finish [OF PBrace.IH [OF k] j]) simp_all
  show ?case
  proof (cases "value_expr (var_table st) e")
    case (Inl err)
    with E show ?thesis by (simp add: n primary_brace bind_fst)
  next
    case (Inr v)
    with E show ?thesis by (simp add: n primary_brace bind_def return_def)
  qed
next
  case (PNeg p)
  then obtain k where n: "n = Suc k" and k: "need_prim p \<le> k" by (cases n) auto
  note E = PNeg.IH [OF k, where st = st and rest = rest]
  show ?case
  proof (cases "value_prim (var_table st) p")
    case (Inl err)
    with E show ?thesis by (simp add: n primary_neg bind_fst unary_def)
  next
    case (Inr v)
    with E show ?thesis by (simp add: n primary_neg bind_def return_def unary_def)
  qed
next
  case (PPos p)
  then obtain k where n: "n = Suc k" and k: "need_prim p \<le> k" by (cases n) auto
  note E = PPos.IH [OF k, where st = st and rest = rest]
  show ?case
  proof (cases "value_prim (var_table st) p")
    case (Inl err)
    with E show ?thesis by (simp add: n primary_pos bind_fst)
  next
    case (Inr v)
    with E show ?thesis by (simp add: n primary_pos bind_def return_def)
  qed
next
  case (PSqrt e)
  then obtain k where n: "n = Suc (Suc k)" and k: "need_expr e \<le> k"
    by (cases n; cases "n - 1") auto
  have j: "0 < k - 1 - addops e" using k need_bounds(4) [of e] by linarith
  let ?S = "st\<lparr>buffer := tokens_expr e @ Token_kind (CHR '')'') # rest\<rparr>"
  have E: "case value_expr (var_table st) e of
          Inl err \<Rightarrow> fst (expression k ?S) = Inl err
        | Inr v \<Rightarrow> expression k ?S = (Inr v, st\<lparr>buffer := Token_kind (CHR '')'') # rest\<rparr>)"
    by (rule expression_finish [OF PSqrt.IH [OF k] j]) simp_all
  show ?case
  proof (cases "value_expr (var_table st) e")
    case (Inl err)
    with E show ?thesis by (simp add: n primary_sqrt bind_fst unary_def)
  next
    case (Inr v)
    with E show ?thesis by (simp add: n primary_sqrt bind_def return_def throw_def unary_def)
  qed
next
  case (PPow a b)
  then obtain k where n: "n = Suc (Suc k)" and ka: "need_expr a \<le> k" and kb: "need_expr b \<le> k"
    by (cases n; cases "n - 1") auto
  have ja: "0 < k - 1 - addops a" using ka need_bounds(4) [of a] by linarith
  have jb: "0 < k - 1 - addops b" using kb need_bounds(4) [of b] by linarith
  let ?SB = "st\<lparr>buffer := tokens_expr b @ Token_kind (CHR '')'') # rest\<rparr>"
  let ?SA = "st\<lparr>buffer := tokens_expr a @ Token_kind (CHR '','') #
              tokens_expr b @ Token_kind (CHR '')'') # rest\<rparr>"
  have A: "case value_expr (var_table st) a of
          Inl err \<Rightarrow> fst (expression k ?SA) = Inl err
        | Inr v \<Rightarrow> expression k ?SA = (Inr v, st\<lparr>buffer := Token_kind (CHR '','') #
              tokens_expr b @ Token_kind (CHR '')'') # rest\<rparr>)"
    by (rule expression_finish [OF PPow.IH(1) [OF ka] ja]) simp_all
  have B: "case value_expr (var_table st) b of
          Inl err \<Rightarrow> fst (expression k ?SB) = Inl err
        | Inr v \<Rightarrow> expression k ?SB = (Inr v, st\<lparr>buffer := Token_kind (CHR '')'') # rest\<rparr>)"
    by (rule expression_finish [OF PPow.IH(2) [OF kb] jb]) simp_all
  show ?case
  proof (cases "value_expr (var_table st) a")
    case (Inl err)
    with A show ?thesis by (simp add: n primary_pow bind_fst binary_def)
  next
    case a: (Inr x)
    show ?thesis
    proof (cases "value_expr (var_table st) b")
      case (Inl err)
      with a A B show ?thesis by (simp add: n primary_pow bind_fst binary_def)
    next
      case (Inr y)
      with a A B show ?thesis by (simp add: n primary_pow bind_def return_def binary_def)
    qed
  qed
next
  case (SPrimary p)
  then obtain k where n: "n = Suc k" and k: "need_prim p \<le> k" by (cases n) auto
  note E = SPrimary.IH [OF k, where st = st and rest = "t0 # rest"]
  show ?case
  proof (cases "value_prim (var_table st) p")
    case (Inl err)
    with E show ?thesis by (simp add: n secondary.simps bind_fst)
  next
    case (Inr v)
    with E show ?thesis by (simp add: n secondary.simps bind_def)
  qed
next
  case (SFactorial s)
  then have k: "need_sec s \<le> n" by simp
  from SFactorial.prems need_bounds(2) [of s] obtain j where
    j: "n - Suc (bangs s) = Suc j" and j': "n - Suc (Suc (bangs s)) = j"
    by (cases "n - Suc (bangs s)") auto
  note E = SFactorial.IH [OF k, where st = st and ?t0.0 = "Token_kind (CHR ''!'')" and rest = "t0 # rest"]
  show ?case
  proof (cases "value_sec (var_table st) s")
    case (Inl err)
    with E show ?thesis by (simp add: unary_def)
  next
    case (Inr v)
    with E show ?thesis
      by (cases "postfix_factorial v")
        (simp_all add: j j' unary_def lift_def bind_def secondary_loop.simps)
  qed
next
  case (TSecondary s)
  then obtain k where n: "n = Suc k" and k: "need_sec s \<le> k" by (cases n) auto
  have j: "0 < k - 1 - bangs s" using k need_bounds(2) [of s] by linarith
  let ?S = "st\<lparr>buffer := tokens_sec s @ t0 # rest\<rparr>"
  have S: "case value_sec (var_table st) s of
          Inl err \<Rightarrow> fst (secondary k ?S) = Inl err
        | Inr v \<Rightarrow> secondary k ?S = (Inr v, st\<lparr>buffer := t0 # rest\<rparr>)"
    by (rule secondary_finish [OF TSecondary.IH [OF k] j TSecondary.prems(2)])
  show ?case
  proof (cases "value_sec (var_table st) s")
    case (Inl err)
    with S show ?thesis by (simp add: n term_level.simps bind_fst)
  next
    case (Inr v)
    with S show ?thesis by (simp add: n term_level.simps bind_def)
  qed
next
  case (TMul t s)
  then have k: "need_trm t \<le> n" by simp
  from TMul.prems need_bounds(3) [of t] obtain j where
    j: "n - Suc (mulops t) = Suc j" and j': "n - Suc (Suc (mulops t)) = j" and js: "need_sec s \<le> j"
    by (cases "n - Suc (mulops t)") auto
  let ?S' = "st\<lparr>buffer := tokens_sec s @ t0 # rest\<rparr>"
  have T: "case value_trm (var_table st) t of
          Inl err \<Rightarrow> fst (term_level n (st\<lparr>buffer := tokens_trm (TMul t s) @ t0 # rest\<rparr>)) = Inl err
        | Inr v \<Rightarrow> term_level n (st\<lparr>buffer := tokens_trm (TMul t s) @ t0 # rest\<rparr>)
                    = term_loop (Suc j) v (Token_kind (CHR ''*'')) ?S'"
    using TMul.IH(1) [OF k, where st = st and ?t0.0 = "Token_kind (CHR ''*'')"
        and rest = "tokens_sec s @ t0 # rest"]
    by (cases "value_trm (var_table st) t") (simp_all add: j)
  have js': "0 < j - 1 - bangs s" using js need_bounds(2) [of s] by linarith
  have S: "case value_sec (var_table st) s of
          Inl err \<Rightarrow> fst (secondary j ?S') = Inl err
        | Inr v \<Rightarrow> secondary j ?S' = (Inr v, st\<lparr>buffer := t0 # rest\<rparr>)"
    by (rule secondary_finish [OF TMul.IH(2) [OF js] js' TMul.prems(2)])
  show ?case
  proof (cases "value_trm (var_table st) t")
    case (Inl err)
    with T show ?thesis by (simp add: binary_def)
  next
    case a: (Inr x)
    show ?thesis
    proof (cases "value_sec (var_table st) s")
      case (Inl err)
      with a T S show ?thesis by (simp add: binary_def term_loop.simps bind_fst)
    next
      case (Inr y)
      with a T S show ?thesis
        by (simp add: binary_def term_loop.simps bind_def throw_def j')
    qed
  qed
next
  case (TDiv t s)
  then have k: "need_trm t \<le> n" by simp
  from TDiv.prems need_bounds(3) [of t] obtain j where
    j: "n - Suc (mulops t) = Suc j" and j': "n - Suc (Suc (mulops t)) = j" and js: "need_sec s \<le> j"
    by (cases "n - Suc (mulops t)") auto
  let ?S' = "st\<lparr>buffer := tokens_sec s @ t0 # rest\<rparr>"
  have T: "case value_trm (var_table st) t of
          Inl err \<Rightarrow> fst (term_level n (st\<lparr>buffer := tokens_trm (TDiv t s) @ t0 # rest\<rparr>)) = Inl err
        | Inr v \<Rightarrow> term_level n (st\<lparr>buffer := tokens_trm (TDiv t s) @ t0 # rest\<rparr>)
                    = term_loop (Suc j) v (Token_kind (CHR ''/'')) ?S'"
    using TDiv.IH(1) [OF k, where st = st and ?t0.0 = "Token_kind (CHR ''/'')"
        and rest = "tokens_sec s @ t0 # rest"]
    by (cases "value_trm (var_table st) t") (simp_all add: j)
  have js': "0 < j - 1 - bangs s" using js need_bounds(2) [of s] by linarith
  have S: "case value_sec (var_table st) s of
          Inl err \<Rightarrow> fst (secondary j ?S') = Inl err
        | Inr v \<Rightarrow> secondary j ?S' = (Inr v, st\<lparr>buffer := t0 # rest\<rparr>)"
    by (rule secondary_finish [OF TDiv.IH(2) [OF js] js' TDiv.prems(2)])
  show ?case
  proof (cases "value_trm (var_table st) t")
    case (Inl err)
    with T show ?thesis by (simp add: binary_def)
  next
    case a: (Inr x)
    show ?thesis
    proof (cases "value_sec (var_table st) s")
      case (Inl err)
      with a T S show ?thesis by (simp add: binary_def term_loop.simps bind_fst)
    next
      case (Inr y)
      with a T S show ?thesis
        by (simp add: binary_def term_loop.simps bind_def throw_def j')
    qed
  qed
next
  case (TMod t s)
  then have k: "need_trm t \<le> n" by simp
  from TMod.prems need_bounds(3) [of t] obtain j where
    j: "n - Suc (mulops t) = Suc j" and j': "n - Suc (Suc (mulops t)) = j" and js: "need_sec s \<le> j"
    by (cases "n - Suc (mulops t)") auto
  let ?S' = "st\<lparr>buffer := tokens_sec s @ t0 # rest\<rparr>"
  have T: "case value_trm (var_table st) t of
          Inl err \<Rightarrow> fst (term_level n (st\<lparr>buffer := tokens_trm (TMod t s) @ t0 # rest\<rparr>)) = Inl err
        | Inr v \<Rightarrow> term_level n (st\<lparr>buffer := tokens_trm (TMod t s) @ t0 # rest\<rparr>)
                    = term_loop (Suc j) v (Token_kind (CHR ''%'')) ?S'"
    using TMod.IH(1) [OF k, where st = st and ?t0.0 = "Token_kind (CHR ''%'')"
        and rest = "tokens_sec s @ t0 # rest"]
    by (cases "value_trm (var_table st) t") (simp_all add: j)
  have js': "0 < j - 1 - bangs s" using js need_bounds(2) [of s] by linarith
  have S: "case value_sec (var_table st) s of
          Inl err \<Rightarrow> fst (secondary j ?S') = Inl err
        | Inr v \<Rightarrow> secondary j ?S' = (Inr v, st\<lparr>buffer := t0 # rest\<rparr>)"
    by (rule secondary_finish [OF TMod.IH(2) [OF js] js' TMod.prems(2)])
  show ?case
  proof (cases "value_trm (var_table st) t")
    case (Inl err)
    with T show ?thesis by (simp add: binary_def)
  next
    case a: (Inr x)
    show ?thesis
    proof (cases "value_sec (var_table st) s")
      case (Inl err)
      with a T S show ?thesis by (simp add: binary_def term_loop.simps bind_fst)
    next
      case (Inr y)
      with a T S show ?thesis
        by (simp add: binary_def term_loop.simps bind_def throw_def j')
    qed
  qed
next
  case (ETerm t)
  then obtain k where n: "n = Suc k" and k: "need_trm t \<le> k" by (cases n) auto
  have j: "0 < k - 1 - mulops t" using k need_bounds(3) [of t] by linarith
  have t0: "kind t0 \<noteq> CHR ''!''" "kind t0 \<noteq> CHR ''*''" "kind t0 \<noteq> CHR ''/''" "kind t0 \<noteq> CHR ''%''"
    using ETerm.prems(2) by auto
  let ?S = "st\<lparr>buffer := tokens_trm t @ t0 # rest\<rparr>"
  have T: "case value_trm (var_table st) t of
          Inl err \<Rightarrow> fst (term_level k ?S) = Inl err
        | Inr v \<Rightarrow> term_level k ?S = (Inr v, st\<lparr>buffer := t0 # rest\<rparr>)"
    by (rule term_finish [OF ETerm.IH [OF k t0(1)] j t0(2,3,4)])
  show ?case
  proof (cases "value_trm (var_table st) t")
    case (Inl err)
    with T show ?thesis by (simp add: n expression.simps bind_fst)
  next
    case (Inr v)
    with T show ?thesis by (simp add: n expression.simps bind_def)
  qed
next
  case (EAdd e t)
  then have k: "need_expr e \<le> n" by simp
  from EAdd.prems need_bounds(4) [of e] obtain j where
    j: "n - Suc (addops e) = Suc j" and j': "n - Suc (Suc (addops e)) = j" and jt: "need_trm t \<le> j"
    by (cases "n - Suc (addops e)") auto
  let ?S' = "st\<lparr>buffer := tokens_trm t @ t0 # rest\<rparr>"
  have E: "case value_expr (var_table st) e of
          Inl err \<Rightarrow> fst (expression n (st\<lparr>buffer := tokens_expr (EAdd e t) @ t0 # rest\<rparr>)) = Inl err
        | Inr v \<Rightarrow> expression n (st\<lparr>buffer := tokens_expr (EAdd e t) @ t0 # rest\<rparr>)
                    = expression_loop (Suc j) v (Token_kind (CHR ''+'')) ?S'"
    using EAdd.IH(1) [OF k, where st = st and ?t0.0 = "Token_kind (CHR ''+'')"
        and rest = "tokens_trm t @ t0 # rest"]
    by (cases "value_expr (var_table st) e") (simp_all add: j)
  have jt': "0 < j - 1 - mulops t" using jt need_bounds(3) [of t] by linarith
  have t0: "kind t0 \<noteq> CHR ''!''" "kind t0 \<noteq> CHR ''*''" "kind t0 \<noteq> CHR ''/''" "kind t0 \<noteq> CHR ''%''"
    using EAdd.prems(2) by auto
  have T: "case value_trm (var_table st) t of
          Inl err \<Rightarrow> fst (term_level j ?S') = Inl err
        | Inr v \<Rightarrow> term_level j ?S' = (Inr v, st\<lparr>buffer := t0 # rest\<rparr>)"
    by (rule term_finish [OF EAdd.IH(2) [OF jt t0(1)] jt' t0(2,3,4)])
  show ?case
  proof (cases "value_expr (var_table st) e")
    case (Inl err)
    with E show ?thesis by (simp add: binary_def)
  next
    case a: (Inr x)
    show ?thesis
    proof (cases "value_trm (var_table st) t")
      case (Inl err)
      with a E T show ?thesis by (simp add: binary_def expression_loop.simps bind_fst)
    next
      case (Inr y)
      with a E T show ?thesis
        by (simp add: binary_def expression_loop.simps bind_def j')
    qed
  qed
next
  case (ESub e t)
  then have k: "need_expr e \<le> n" by simp
  from ESub.prems need_bounds(4) [of e] obtain j where
    j: "n - Suc (addops e) = Suc j" and j': "n - Suc (Suc (addops e)) = j" and jt: "need_trm t \<le> j"
    by (cases "n - Suc (addops e)") auto
  let ?S' = "st\<lparr>buffer := tokens_trm t @ t0 # rest\<rparr>"
  have E: "case value_expr (var_table st) e of
          Inl err \<Rightarrow> fst (expression n (st\<lparr>buffer := tokens_expr (ESub e t) @ t0 # rest\<rparr>)) = Inl err
        | Inr v \<Rightarrow> expression n (st\<lparr>buffer := tokens_expr (ESub e t) @ t0 # rest\<rparr>)
                    = expression_loop (Suc j) v (Token_kind (CHR ''-'')) ?S'"
    using ESub.IH(1) [OF k, where st = st and ?t0.0 = "Token_kind (CHR ''-'')"
        and rest = "tokens_trm t @ t0 # rest"]
    by (cases "value_expr (var_table st) e") (simp_all add: j)
  have jt': "0 < j - 1 - mulops t" using jt need_bounds(3) [of t] by linarith
  have t0: "kind t0 \<noteq> CHR ''!''" "kind t0 \<noteq> CHR ''*''" "kind t0 \<noteq> CHR ''/''" "kind t0 \<noteq> CHR ''%''"
    using ESub.prems(2) by auto
  have T: "case value_trm (var_table st) t of
          Inl err \<Rightarrow> fst (term_level j ?S') = Inl err
        | Inr v \<Rightarrow> term_level j ?S' = (Inr v, st\<lparr>buffer := t0 # rest\<rparr>)"
    by (rule term_finish [OF ESub.IH(2) [OF jt t0(1)] jt' t0(2,3,4)])
  show ?case
  proof (cases "value_expr (var_table st) e")
    case (Inl err)
    with E show ?thesis by (simp add: binary_def)
  next
    case a: (Inr x)
    show ?thesis
    proof (cases "value_trm (var_table st) t")
      case (Inl err)
      with a E T show ?thesis by (simp add: binary_def expression_loop.simps bind_fst)
    next
      case (Inr y)
      with a E T show ?thesis
        by (simp add: binary_def expression_loop.simps bind_def j')
    qed
  qed
qed


subsection \<open>Running the program on concrete input\<close>

lemmas fuel_numeral =
  skip_space.simps(2) [of "pred_numeral k", folded numeral_eq_Suc]
  primary.simps(2) [of "pred_numeral k", folded numeral_eq_Suc]
  eval_function.simps(2) [of "pred_numeral k", folded numeral_eq_Suc]
  secondary.simps(2) [of "pred_numeral k", folded numeral_eq_Suc]
  secondary_loop.simps(2) [of "pred_numeral k", folded numeral_eq_Suc]
  term_level.simps(2) [of "pred_numeral k", folded numeral_eq_Suc]
  term_loop.simps(2) [of "pred_numeral k", folded numeral_eq_Suc]
  expression.simps(2) [of "pred_numeral k", folded numeral_eq_Suc]
  expression_loop.simps(2) [of "pred_numeral k", folded numeral_eq_Suc]
  skip_prints.simps(2) [of "pred_numeral k", folded numeral_eq_Suc]
  calculate.simps(2) [of "pred_numeral k", folded numeral_eq_Suc]
  for k

lemmas run_defs = main_def start_def try_block_def statement_def assignment_def declaration_stmt_def
  get_def scan_def bind_def return_def throw_def lift_def putback_def clean_up_def ignore_def
  cin_get_def cin_putback_def cin_read_double_def read_double_def keyword_def
  Token_kind_def Token_number_def Token_name_def kind_defs key_defs newline_def
  isspace_def isalpha_def isdigit_def digit_val_def digits_val_def
  postfix_factorial_def double_to_int_def factorial_def
  define_action_def set_action_def is_declared_def define_name_def startup_table_eq

lemma precedence_examples:
  "fst (main 30 (''2+3*4'' @ [newline] @ ''2*3!'' @ [newline] @ ''pow(2,3)'' @ [newline] @ ''q'')) =
     [Prompt, ResultMark, Value 14, Prompt, ResultMark, Value 12, Prompt, ResultMark, Value 8, Prompt]"
  by (simp add: fuel_numeral run_defs fact_loop.simps c_pow_def)

text \<open>
  Claim C3. For every well-formed expression (a tree of the four-level grammar) whose
  tokens are followed by a token that is no operator, \<open>expression\<close> returns the value of
  the tree, which associates the operators of one level to the left and ranks the levels
  unary, grouping and call above \<open>!\<close> above \<open>* / %\<close> above \<open>+ -\<close>; it has then
  consumed exactly the tokens of the tree. When the tree's value is a failure, that failure
  is the result. The program prints 14 for \<open>2+3*4\<close>, 12 for \<open>2*3!\<close> and 8 for
  \<open>pow(2,3)\<close>.
\<close>

theorem expression_follows_grammar:
  "(need_expr e \<le> n \<and> kind t0 \<notin> set ''!*/%+-'' \<longrightarrow>
      fst (expression n (st\<lparr>buffer := tokens_expr e @ t0 # rest\<rparr>)) = value_expr (var_table st) e
    \<and> (\<forall>v. value_expr (var_table st) e = Inr v \<longrightarrow>
          expression n (st\<lparr>buffer := tokens_expr e @ t0 # rest\<rparr>) = (Inr v, st\<lparr>buffer := t0 # rest\<rparr>)))
 \<and> fst (main 30 (''2+3*4'' @ [newline] @ ''2*3!'' @ [newline] @ ''pow(2,3)'' @ [newline] @ ''q'')) =
     [Prompt, ResultMark, Value 14, Prompt, ResultMark, Value 12, Prompt, ResultMark, Value 8, Prompt]"
proof (intro conjI impI)
  assume a: "need_expr e \<le> n \<and> kind t0 \<notin> set ''!*/%+-''"
  then have n: "need_expr e \<le> n" and t0: "kind t0 \<notin> set ''!*/%''"
    and pm: "kind t0 \<noteq> CHR ''+''" "kind t0 \<noteq> CHR ''-''" by auto
  have j: "0 < n - 1 - addops e" using n need_bounds(4) [of e] by linarith
  let ?S = "st\<lparr>buffer := tokens_expr e @ t0 # rest\<rparr>"
  have E: "case value_expr (var_table st) e of
          Inl err \<Rightarrow> fst (expression n ?S) = Inl err
        | Inr v \<Rightarrow> expression n ?S = (Inr v, st\<lparr>buffer := t0 # rest\<rparr>)"
    by (rule expression_finish [OF parse_levels(4) [OF n t0] j pm])
  then show "fst (expression n ?S) = value_expr (var_table st) e"
    by (cases "value_expr (var_table st) e") simp_all
  from E show "\<forall>v. value_expr (var_table st) e = Inr v \<longrightarrow> expression n ?S = (Inr v, st\<lparr>buffer := t0 # rest\<rparr>)"
    by (cases "value_expr (var_table st) e") simp_all
next
  show "fst (main 30 (''2+3*4'' @ [newline] @ ''2*3!'' @ [newline] @ ''pow(2,3)'' @ [newline] @ ''q'')) =
     [Prompt, ResultMark, Value 14, Prompt, ResultMark, Value 12, Prompt, ResultMark, Value 8, Prompt]"
    by (rule precedence_examples)
qed

theorem expression_follows_grammar_witness:
  "tokens_expr (EAdd (ETerm (TSecondary (SPrimary (PNumber 2))))
        (TMul (TSecondary (SPrimary (PNumber 3))) (SPrimary (PNumber 4))))
     = [Token_number t_number 2, Token_kind (CHR ''+''), Token_number t_number 3,
        Token_kind (CHR ''*''), Token_number t_number 4]
 \<and> expression 20 ((start [])\<lparr>buffer :=
       [Token_number t_number 2, Token_kind (CHR ''+''), Token_number t_number 3,
        Token_kind (CHR ''*''), Token_number t_number 4, Token_kind t_print]\<rparr>)
     = (Inr 14, (start [])\<lparr>buffer := [Token_kind t_print]\<rparr>)
 \<and> tokens_expr (ESub (ESub (ETerm (TSecondary (SPrimary (PNumber 10))))
        (TSecondary (SPrimary (PNumber 4)))) (TSecondary (SPrimary (PNumber 3))))
     = [Token_number t_number 10, Token_kind (CHR ''-''), Token_number t_number 4,
        Token_kind (CHR ''-''), Token_number t_number 3]
 \<and> expression 20 ((start [])\<lparr>buffer :=
       [Token_number t_number 10, Token_kind (CHR ''-''), Token_number t_number 4,
        Token_kind (CHR ''-''), Token_number t_number 3, Token_kind t_print]\<rparr>)
     = (Inr 3, (start [])\<lparr>buffer := [Token_kind t_print]\<rparr>)"
proof -
  let ?e1 = "EAdd (ETerm (TSecondary (SPrimary (PNumber 2))))
        (TMul (TSecondary (SPrimary (PNumber 3))) (SPrimary (PNumber 4)))"
  let ?e2 = "ESub (ESub (ETerm (TSecondary (SPrimary (PNumber 10))))
        (TSecondary (SPrimary (PNumber 4)))) (TSecondary (SPrimary (PNumber 3)))"
  have h: "kind (Token_kind t_print) \<notin> set ''!*/%+-''" by (simp add: t_print_def)
  have n1: "need_expr ?e1 \<le> 20" and n2: "need_expr ?e2 \<le> 20" by simp_all
  have v1: "value_expr (var_table (start [])) ?e1 = Inr 14" by (simp add: binary_def)
  have v2: "value_expr (var_table (start [])) ?e2 = Inr 3" by (simp add: binary_def)
  note g1 = expression_follows_grammar [where e = ?e1 and n = 20 and ?t0.0 = "Token_kind t_print"
      and st = "start []" and rest = "[]", THEN conjunct1, rule_format, OF conjI [OF n1 h],
      THEN conjunct2, rule_format, OF v1]
  note g2 = expression_follows_grammar [where e = ?e2 and n = 20 and ?t0.0 = "Token_kind t_print"
      and st = "start []" and rest = "[]", THEN conjunct1, rule_format, OF conjI [OF n2 h],
      THEN conjunct2, rule_format, OF v2]
  from g1 g2 show ?thesis by simp
qed

section \<open>Properties of the tokenizer\<close>

text \<open>
  Claim C7 at the inputs \<open>exit\<close> (followed by a line \<open>q\<close>) and \<open>let qty = 5\<close>. The word \<open>exit\<close>, which the
  header grammar lists as the quit command, is a Name token, and the statement \<open>exit\<close>
  fails as the read of an undefined variable. The switch of \<open>get\<close> returns the quit token
  for the character \<open>q\<close> before the alphabetic branch is reached, so no word that starts
  with \<open>q\<close> is ever read as a word: of \<open>qty\<close> only the \<open>q\<close> is consumed, the test
  against the keyword \<open>quit\<close> is dead, and the declaration \<open>let qty = 5\<close> fails because
  no name follows \<open>let\<close>.
\<close>

theorem exit_and_q_words_are_not_matched:
  "get 1 (start ''exit;'') = (Inr (Token_name t_name ''exit''), (start ''exit;'')\<lparr>input := '';''\<rparr>)
 \<and> get 1 (start ''qty;'') = (Inr (Token_kind t_quit), (start ''qty;'')\<lparr>input := ''ty;''\<rparr>)
 \<and> scan (CHR ''q'') st = (Inr (Token_kind t_quit), st)
 \<and> fst (main 20 (''exit'' @ [newline] @ ''q'')) =
     [Prompt, ResultMark, ErrorLine (UndefinedRead ''exit''), Prompt]
 \<and> fst (main 20 (''let qty = 5'' @ [newline])) = [Prompt, ResultMark, ErrorLine NameExpected]"
  by (simp add: fuel_numeral run_defs)


section \<open>Runs of the calculator\<close>

text \<open>
  Claim C1 as stated fails: the program does not print the value \<open>-6\<close> for the
  statement \<open>-3!\<close>; it prints the error of a factorial of a negative number.
\<close>

theorem minus_three_factorial_run:
  "main 20 (''-3!'' @ [newline]) =
     ([Prompt, ResultMark, ErrorLine NegativeFactorial], InputFailed,
      \<lparr>buffer = [], input = [], cin_fail = True, var_table = startup_table\<rparr>)"
  by (simp add: fuel_numeral run_defs)

text \<open>
  Claim C1, amended. In the statement \<open>-3!\<close> the unary minus is parsed inside
  \<open>primary\<close>, which returns \<open>-3\<close> and leaves the \<open>!\<close> unread; \<open>secondary\<close> then
  consumes the \<open>!\<close> and applies the factorial to \<open>-3\<close>, so the statement fails with
  \<open>NegativeFactorial\<close> and has no value.
\<close>

theorem minus_three_factorial_fails:
  "primary 10 (start (''-3!'' @ [newline]))
     = (Inr (- 3), (start (''-3!'' @ [newline]))\<lparr>input := ''!'' @ [newline]\<rparr>)
 \<and> secondary 10 (start (''-3!'' @ [newline]))
     = (Inl NegativeFactorial, (start (''-3!'' @ [newline]))\<lparr>input := [newline]\<rparr>)
 \<and> statement 10 (start (''-3!'' @ [newline]))
     = (Inl NegativeFactorial, (start (''-3!'' @ [newline]))\<lparr>input := [newline]\<rparr>)"
  by (simp add: fuel_numeral run_defs)

text \<open>
  Claim C2 at the input \<open>@\<close>, newline, \<open>1+2\<close>, newline. After the bad token the
  recovery reads \<open>cin\<close> up to the next character \<open>;\<close>; the newline is skipped as white
  space, so the next line is discarded with the rest of the input and \<open>1+2\<close> is never
  evaluated. When a \<open>;\<close> ends the failing statement, the next statement is evaluated.
\<close>

theorem recovery_discards_next_line:
  "main 20 (''@'' @ [newline] @ ''1+2'' @ [newline]) =
     ([Prompt, ErrorLine BadToken], InputFailed,
      \<lparr>buffer = [], input = [], cin_fail = True, var_table = startup_table\<rparr>)
 \<and> ignore_cin t_print (newline # cs) = ignore_cin t_print cs
 \<and> fst (main 20 ''@;1+2;q'') = [Prompt, ErrorLine BadToken, Prompt, ResultMark, Value 3, Prompt]"
  by (simp add: fuel_numeral run_defs)

text \<open>
  Claim C5 at the input \<open>10 % 0\<close>. The tokenizer has no case for the character \<open>%\<close>:
  the statement fails with \<open>BadToken\<close>, not with a division by zero. The statement
  \<open>10 / 0\<close> fails with \<open>DivideByZero\<close> and leaves the symbol table as it was.
\<close>

theorem percent_by_zero_is_bad_token:
  "main 20 (''10 % 0'' @ [newline]) =
     ([Prompt, ResultMark, ErrorLine BadToken], InputFailed,
      \<lparr>buffer = [], input = [], cin_fail = True, var_table = startup_table\<rparr>)
 \<and> main 20 ''10 / 0;q'' =
     ([Prompt, ResultMark, ErrorLine DivideByZero, Prompt], Quit,
      \<lparr>buffer = [], input = [], cin_fail = False, var_table = startup_table\<rparr>)"
  by (simp add: fuel_numeral run_defs)

text \<open>
  Claim C10 at the input \<open>7 % 2\<close>. In every state the character \<open>%\<close> is a bad token,
  so no input reaches the \<open>fmod\<close> of \<open>term\<close>: the statement fails with \<open>BadToken\<close>.
\<close>

theorem percent_is_never_a_token:
  "scan (CHR ''%'') st = (Inl BadToken, st)
 \<and> fst (main 20 (''7 % 2'' @ [newline])) = [Prompt, ResultMark, ErrorLine BadToken]"
  by (simp add: fuel_numeral run_defs)

end
